theory Spec2Isabelle
  imports Complex_Main
begin

section \<open>Python values, exceptions and string primitives\<close>

text \<open>
  Python strings are modelled as \<open>string\<close>, one \<open>char\<close> per code point (code points
  below 256).  Metadata and payload dictionaries are maps from keys to values; the values
  the pipeline stores are strings, integers and lists.
\<close>

datatype pyval = PStr string | PInt int | PList "pyval list"

type_synonym pydict = "string \<rightharpoonup> pyval"

text \<open>
  An exception is a value: the name of its class.  \<open>Raised\<close> is an instance of
  \<^verbatim>\<open>Exception\<close>, which \<^verbatim>\<open>except Exception\<close> catches; \<open>RaisedBase\<close> is any other
  \<^verbatim>\<open>BaseException\<close> (\<^verbatim>\<open>KeyboardInterrupt\<close>, \<^verbatim>\<open>SystemExit\<close>), which it does not.
\<close>

datatype error = Raised string | RaisedBase string

text \<open>Truthiness of a value, as tested by \<^verbatim>\<open>if v:\<close>.\<close>

fun truthy :: "pyval \<Rightarrow> bool" where
  "truthy (PStr s) = (s \<noteq> [])"
| "truthy (PInt n) = (n \<noteq> 0)"
| "truthy (PList vs) = (vs \<noteq> [])"

text \<open>
  \<^verbatim>\<open>s.find(sub, start)\<close>: the lowest index \<open>i \<ge> start\<close> at which \<open>sub\<close> occurs in \<open>s\<close>, or
  \<open>-1\<close>.  A negative \<open>start\<close> counts from the end and is clamped to 0.
\<close>

definition occurs_at :: "string \<Rightarrow> string \<Rightarrow> nat \<Rightarrow> bool" where
  "occurs_at s sub i = (take (length sub) (drop i s) = sub)"

definition py_find :: "string \<Rightarrow> string \<Rightarrow> int \<Rightarrow> int" where
  "py_find s sub start =
     (let n = int (length s);
          st = (if start < 0 then max 0 (start + n) else start)
      in case List.find (occurs_at s sub) [nat st ..< Suc (length s) - length sub] of
           None \<Rightarrow> -1
         | Some i \<Rightarrow> int i)"

text \<open>\<^verbatim>\<open>sub in s\<close>.\<close>

definition py_in :: "string \<Rightarrow> string \<Rightarrow> bool" where
  "py_in sub s = (py_find s sub 0 \<noteq> -1)"

text \<open>\<^verbatim>\<open>s[a:b]\<close> and \<^verbatim>\<open>s[a:]\<close> for indices \<open>0 \<le> a \<le> b\<close>.\<close>

definition slice :: "string \<Rightarrow> nat \<Rightarrow> nat \<Rightarrow> string" where
  "slice s a b = take (b - a) (drop a s)"

definition slice_from :: "string \<Rightarrow> nat \<Rightarrow> string" where
  "slice_from s a = drop a s"

section \<open>Chunker (src/data/text\_splitter.py)\<close>

record document =
  page_content :: string
  metadata :: pydict

text \<open>The separator list handed to the recursive character splitter.\<close>

definition separators :: "string list" where
  "separators =
     [[CHR 0x0A] @ ''## '', [CHR 0x0A] @ ''### '', [CHR 0x0A] @ ''#### '',
      [CHR 0x0A] @ ''- '', [CHR 0x0A] @ ''* '', [CHR 0x0A] @ ''1. '',
      [CHR 0x0A, CHR 0x0A], [CHR 0x0A],
      ''. '', ''? '', ''! '',
      '';'', '':'', '' '', '''']"

text \<open>
  The splitting itself is done by the third-party \<^verbatim>\<open>RecursiveCharacterTextSplitter\<close>.
  It is a parameter of the model: a function from chunk size, chunk overlap, separator
  list and text to the list of pieces.
\<close>

type_synonym text_splitter = "int \<Rightarrow> int \<Rightarrow> string list \<Rightarrow> string \<Rightarrow> string list"

text \<open>
  The Q\&A repair of one piece.  \<open>question_of\<close> is the piece from its question marker
  on; \<open>answer_start\<close> is where the answer marker is found in the original text, searching
  from the first occurrence of the question.  For a document of type \<open>qa\<close>, a piece that
  holds \<open>Q: \<close> but not \<open>A: \<close> is replaced by the question, a newline, up to 200
  characters of the original text from the answer marker on, and \<open>...\<close>; when no answer
  marker is found the piece is kept.
\<close>

definition question_of :: "string \<Rightarrow> string" where
  "question_of chunk_text = slice_from chunk_text (nat (py_find chunk_text ''Q: '' 0))"

definition answer_start :: "string \<Rightarrow> string \<Rightarrow> int" where
  "answer_start full_text question = py_find full_text ''A: '' (py_find full_text question 0)"

definition qa_repair :: "document \<Rightarrow> string \<Rightarrow> string" where
  "qa_repair doc chunk_text =
     (if metadata doc ''type'' = Some (PStr ''qa'') \<and> py_in ''Q: '' chunk_text
         \<and> \<not> py_in ''A: '' chunk_text
      then
        (let question = question_of chunk_text;
             full_text = page_content doc;
             a = answer_start full_text question
         in if a \<noteq> -1
            then
              (let answer_text = slice full_text (nat a)
                                   (nat a + min 200 (length full_text - nat a))
               in question @ [CHR 0x0A] @ answer_text @ ''...'')
            else chunk_text)
      else chunk_text)"

text \<open>The body of the inner loop: the chunk emitted for piece \<open>i\<close> of \<open>n\<close>.\<close>

definition make_chunk :: "document \<Rightarrow> nat \<Rightarrow> nat \<Rightarrow> string \<Rightarrow> document" where
  "make_chunk doc n i chunk_text =
     \<lparr>page_content = qa_repair doc chunk_text,
      metadata = (metadata doc)(''chunk'' \<mapsto> PInt (int i), ''chunk_total'' \<mapsto> PInt (int n))\<rparr>"

text \<open>The inner loop over \<^verbatim>\<open>enumerate(doc_chunks)\<close>, from ordinal \<open>i\<close> on.\<close>

fun emit_chunks :: "document \<Rightarrow> nat \<Rightarrow> nat \<Rightarrow> string list \<Rightarrow> document list" where
  "emit_chunks doc n i [] = []"
| "emit_chunks doc n i (c # cs) = make_chunk doc n i c # emit_chunks doc n (Suc i) cs"

definition split_document :: "text_splitter \<Rightarrow> int \<Rightarrow> int \<Rightarrow> document \<Rightarrow> document list" where
  "split_document split_text chunk_size chunk_overlap doc =
     (let doc_chunks = split_text chunk_size chunk_overlap separators (page_content doc)
      in emit_chunks doc (length doc_chunks) 0 doc_chunks)"

text \<open>The outer loop: chunks are appended document by document.\<close>

fun split_documents :: "text_splitter \<Rightarrow> document list \<Rightarrow> int \<Rightarrow> int \<Rightarrow> document list" where
  "split_documents split_text [] chunk_size chunk_overlap = []"
| "split_documents split_text (doc # docs) chunk_size chunk_overlap =
     split_document split_text chunk_size chunk_overlap doc
       @ split_documents split_text docs chunk_size chunk_overlap"

section \<open>Metadata Extractor (src/utils/metadata.py)\<close>

definition CYANVIEW_PRODUCTS :: "string list" where
  "CYANVIEW_PRODUCTS =
     [''RCP'', ''Remote Control Panel'',
      ''CI0'', ''Camera Interface'',
      ''RIO'', ''Remote I/O'',
      ''RIO Live'', ''RIO-Live'',
      ''VP4'', ''Video Processor'',
      ''NIO'', ''Network I/O'',
      ''GWY'', ''External Gateway'',
      ''CY-RSBM'', ''CY-CI0BM'',
      ''CY-TALLY-BOX'']"

definition CYANVIEW_TOPICS :: "string list" where
  "CYANVIEW_TOPICS =
     [''Camera Control'', ''Lens Control'', ''Tally'', ''REMI'', ''Remote Production'',
      ''Color Correction'', ''Shading'', ''Integration'', ''PTZ'', ''Gimbal'',
      ''IP Control'', ''Serial Control'', ''SDI Control'', ''USB Control'',
      ''Wireless Control'', ''API'', ''Firmware'', ''Configuration'']"

text \<open>
  The character classes of the \<^verbatim>\<open>re\<close> module on code points below 256: \<^verbatim>\<open>\w\<close> is an
  alphanumeric character or the underscore, \<^verbatim>\<open>\s\<close> is a whitespace character.
\<close>

definition is_word_char :: "char \<Rightarrow> bool" where
  "is_word_char c =
     (let n = (of_char c :: nat)
      in (48 \<le> n \<and> n \<le> 57) \<or> (65 \<le> n \<and> n \<le> 90) \<or> n = 95 \<or> (97 \<le> n \<and> n \<le> 122)
         \<or> n = 170 \<or> n = 178 \<or> n = 179 \<or> n = 181 \<or> n = 185 \<or> n = 186
         \<or> (188 \<le> n \<and> n \<le> 190) \<or> (192 \<le> n \<and> n \<le> 214) \<or> (216 \<le> n \<and> n \<le> 246)
         \<or> 248 \<le> n)"

definition is_space_char :: "char \<Rightarrow> bool" where
  "is_space_char c =
     (let n = (of_char c :: nat)
      in (9 \<le> n \<and> n \<le> 13) \<or> (28 \<le> n \<and> n \<le> 32) \<or> n = 133 \<or> n = 160)"

definition is_ascii_upper :: "char \<Rightarrow> bool" where
  "is_ascii_upper c = (let n = (of_char c :: nat) in 65 \<le> n \<and> n \<le> 90)"

text \<open>\<^verbatim>\<open>\b\<close> at index \<open>i\<close>: exactly one of the characters before and at \<open>i\<close> is a word character.\<close>

definition word_at :: "string \<Rightarrow> nat \<Rightarrow> bool" where
  "word_at s i = (i < length s \<and> is_word_char (s ! i))"

definition word_boundary :: "string \<Rightarrow> nat \<Rightarrow> bool" where
  "word_boundary s i = ((0 < i \<and> word_at s (i - 1)) \<noteq> word_at s i)"

text \<open>The pattern \<^verbatim>\<open>r'\b' + re.escape(name) + r'\b'\<close> matches at index \<open>i\<close>.\<close>

definition match_term :: "string \<Rightarrow> string \<Rightarrow> nat \<Rightarrow> bool" where
  "match_term tm s i =
     (word_boundary s i \<and> occurs_at s tm i \<and> word_boundary s (i + length tm))"

text \<open>
  \<^verbatim>\<open>re.findall\<close>: scan from the left; after a match the scan resumes behind it, so the
  matches found do not overlap.  The result is the list of match positions.
\<close>

function findall :: "string \<Rightarrow> string \<Rightarrow> nat \<Rightarrow> nat list" where
  "findall tm s pos =
     (if length s < pos then []
      else if match_term tm s pos then pos # findall tm s (pos + max 1 (length tm))
      else findall tm s (Suc pos))"
  by pat_completeness auto
termination
  by (relation "measure (\<lambda>(tm, s, pos). Suc (length s) - pos)") auto

declare findall.simps [simp del]

text \<open>The loop over a reference list: terms with a positive count, in list order.\<close>

fun found_terms :: "string list \<Rightarrow> string \<Rightarrow> (string \<times> nat) list" where
  "found_terms [] content = []"
| "found_terms (tm # terms) content =
     (let count = length (findall tm content 0)
      in if 0 < count then (tm, count) # found_terms terms content
         else found_terms terms content)"

text \<open>
  \<^verbatim>\<open>xs.sort(key=..., reverse=True)\<close>: the list is reversed, sorted stably by ascending
  key, and reversed again.
\<close>

definition sort_reverse :: "('a \<Rightarrow> nat) \<Rightarrow> 'a list \<Rightarrow> 'a list" where
  "sort_reverse key xs = rev (sort_key key (rev xs))"

definition extract_product_references :: "string \<Rightarrow> string list" where
  "extract_product_references content =
     map fst (sort_reverse snd (found_terms CYANVIEW_PRODUCTS content))"

definition extract_topics :: "string \<Rightarrow> string list" where
  "extract_topics content =
     map fst (sort_reverse snd (found_terms CYANVIEW_TOPICS content))"

text \<open>
  \<^verbatim>\<open>re.search(r'\?\s+[A-Z]', content)\<close>: a question mark, one or more whitespace
  characters, an upper-case ASCII letter.
\<close>

fun question_then_capital :: "string \<Rightarrow> bool" where
  "question_then_capital [] = False"
| "question_then_capital (c # cs) =
     ((c = CHR ''?'' \<and> cs \<noteq> [] \<and> is_space_char (hd cs)
        \<and> (case dropWhile is_space_char cs of [] \<Rightarrow> False | d # _ \<Rightarrow> is_ascii_upper d))
      \<or> question_then_capital cs)"

text \<open>
  \<^verbatim>\<open>re.search(r'Q:.*?A:', content, re.DOTALL)\<close>: some \<open>Q:\<close> with an \<open>A:\<close> behind it;
  the first \<open>Q:\<close> has one whenever any has.
\<close>

definition is_qa_content :: "string \<Rightarrow> bool" where
  "is_qa_content content =
     (let q = py_find content ''Q:'' 0
      in if q \<noteq> -1 \<and> py_find content ''A:'' (q + 2) \<noteq> -1 then True
         else if question_then_capital content then True
         else False)"

definition extract_metadata_from_content :: "string \<Rightarrow> pydict" where
  "extract_metadata_from_content content =
     (let metadata0 = Map.empty;
          products = extract_product_references content;
          metadata1 = (if products \<noteq> []
                       then metadata0(''product'' \<mapsto> PStr (hd products),
                                      ''all_products'' \<mapsto> PList (map PStr products))
                       else metadata0);
          topics = extract_topics content;
          metadata2 = (if topics \<noteq> []
                       then metadata1(''topic'' \<mapsto> PStr (hd topics),
                                      ''all_topics'' \<mapsto> PList (map PStr topics))
                       else metadata1)
      in if is_qa_content content then metadata2(''type'' \<mapsto> PStr ''qa'') else metadata2)"

text \<open>
  The specification's reading of a count, for comparison with \<open>findall\<close>: the term occurs
  at index \<open>i\<close> as a whole word when it stands there letter for letter, with no word
  character directly before it and none directly behind it.
\<close>

definition whole_word_at :: "string \<Rightarrow> string \<Rightarrow> nat \<Rightarrow> bool" where
  "whole_word_at tm s i =
     (occurs_at s tm i \<and> \<not> (0 < i \<and> word_at s (i - 1)) \<and> \<not> word_at s (i + length tm))"

text \<open>
  Two properties of a term: no proper suffix of it is a prefix of it, so that two
  occurrences cannot overlap; and it begins and ends with a word character.
\<close>

definition borderless :: "string \<Rightarrow> bool" where
  "borderless tm = list_all (\<lambda>k. drop k tm \<noteq> take (length tm - k) tm) [1 ..< length tm]"

definition word_ended :: "string \<Rightarrow> bool" where
  "word_ended tm = (tm \<noteq> [] \<and> is_word_char (hd tm) \<and> is_word_char (last tm))"

section \<open>Vector Index (src/qdrant/collection.py)\<close>

text \<open>
  The Qdrant client is an external collaborator.  Its operations are parameters of the
  model: each takes the state of the backing store and returns either the exception it
  raised or its result, together with the state it left.
\<close>

datatype distance = COSINE

datatype payload_schema_type = KEYWORD

record vector_params =
  vp_size :: int
  vp_distance :: distance

record field_condition =
  fc_key :: string
  fc_match :: pyval

record scored_point =
  sp_id :: int
  sp_score :: real
  sp_payload :: pydict

record search_params =
  p_collection_name :: string
  p_query_vector :: "real list"
  p_limit :: int
  p_query_filter :: "field_condition list option"
  p_score_threshold :: "real option"

record 'st qdrant_client =
  get_collections :: "'st \<Rightarrow> (error + string list) \<times> 'st"
  delete_collection :: "string \<Rightarrow> 'st \<Rightarrow> (error + unit) \<times> 'st"
  client_create_collection :: "string \<Rightarrow> vector_params \<Rightarrow> int \<Rightarrow> 'st \<Rightarrow> (error + unit) \<times> 'st"
  create_payload_index :: "string \<Rightarrow> string \<Rightarrow> payload_schema_type \<Rightarrow> 'st \<Rightarrow> (error + unit) \<times> 'st"
  search :: "search_params \<Rightarrow> 'st \<Rightarrow> (error + scored_point list) \<times> 'st"

text \<open>Sequencing: an exception raised by the first step ends the computation.\<close>

definition and_then ::
  "('st \<Rightarrow> (error + 'a) \<times> 'st) \<Rightarrow> ('a \<Rightarrow> 'st \<Rightarrow> (error + 'b) \<times> 'st) \<Rightarrow> 'st \<Rightarrow> (error + 'b) \<times> 'st" where
  "and_then m f st = (case m st of (Inl e, st') \<Rightarrow> (Inl e, st') | (Inr x, st') \<Rightarrow> f x st')"

text \<open>\<^verbatim>\<open>collection_name or COLLECTION_NAME\<close>.\<close>

definition name_or_default :: "string option \<Rightarrow> string \<Rightarrow> string" where
  "name_or_default collection_name dflt =
     (case collection_name of None \<Rightarrow> dflt | Some n \<Rightarrow> if n = [] then dflt else n)"

text \<open>The creation steps: the collection, then the two payload indexes.\<close>

definition create_steps :: "'st qdrant_client \<Rightarrow> string \<Rightarrow> int \<Rightarrow> 'st \<Rightarrow> (error + unit) \<times> 'st" where
  "create_steps client name vector_size =
     and_then (client_create_collection client name
                 \<lparr>vp_size = vector_size, vp_distance = COSINE\<rparr> 0)
       (\<lambda>_. and_then (create_payload_index client name ''product'' KEYWORD)
          (\<lambda>_. create_payload_index client name ''type'' KEYWORD))"

definition create_collection ::
  "'st qdrant_client \<Rightarrow> string \<Rightarrow> int \<Rightarrow> string option \<Rightarrow> bool \<Rightarrow> 'st \<Rightarrow> (error + unit) \<times> 'st" where
  "create_collection client COLLECTION_NAME vector_size collection_name recreate =
     (let name = name_or_default collection_name COLLECTION_NAME
      in and_then (get_collections client)
           (\<lambda>collection_names.
              if name \<in> set collection_names then
                if recreate then
                  and_then (delete_collection client name)
                    (\<lambda>_. create_steps client name vector_size)
                else (\<lambda>st. (Inr (), st))
              else create_steps client name vector_size))"

text \<open>One search result as returned to the caller: id, score and payload of the hit.\<close>

record search_result =
  res_id :: int
  res_score :: real
  res_payload :: pydict

definition format_result :: "scored_point \<Rightarrow> search_result" where
  "format_result result =
     \<lparr>res_id = sp_id result, res_score = sp_score result, res_payload = sp_payload result\<rparr>"

text \<open>
  The request built by \<^verbatim>\<open>search_vectors\<close>: a filter only for a non-empty
  \<^verbatim>\<open>filter_params\<close>, one equality condition per entry; a threshold only when given.
\<close>

definition build_search_params ::
  "string \<Rightarrow> real list \<Rightarrow> (string \<times> pyval) list option \<Rightarrow> int \<Rightarrow> real option \<Rightarrow> search_params" where
  "build_search_params name qv filter_params top_k threshold =
     \<lparr>p_collection_name = name,
      p_query_vector = qv,
      p_limit = top_k,
      p_query_filter =
        (case filter_params of
           None \<Rightarrow> None
         | Some kvs \<Rightarrow>
             if kvs = [] then None
             else Some (map (\<lambda>(key, v). \<lparr>fc_key = key, fc_match = v\<rparr>) kvs)),
      p_score_threshold = threshold\<rparr>"

definition search_vectors ::
  "'st qdrant_client \<Rightarrow> string \<Rightarrow> real list \<Rightarrow> string option \<Rightarrow> (string \<times> pyval) list option
     \<Rightarrow> int \<Rightarrow> real option \<Rightarrow> 'st \<Rightarrow> (error + search_result list) \<times> 'st" where
  "search_vectors client COLLECTION_NAME qv collection_name filter_params top_k threshold =
     (let name = name_or_default collection_name COLLECTION_NAME;
          params = build_search_params name qv filter_params top_k threshold
      in and_then (search client params)
           (\<lambda>search_results st. (Inr (map format_result search_results), st)))"

text \<open>
  The contract of the backend's search: the answer to a request holds at most \<open>limit\<close>
  hits, each at or above the score threshold of the request when it has one, in
  descending order of score.
\<close>

definition honours_request :: "'st qdrant_client \<Rightarrow> bool" where
  "honours_request cl =
     (\<forall>params st hits st'.
        search cl params st = (Inr hits, st') \<longrightarrow>
          length hits \<le> nat (p_limit params)
          \<and> (\<forall>t. p_score_threshold params = Some t \<longrightarrow> (\<forall>h \<in> set hits. t \<le> sp_score h))
          \<and> sorted_wrt (\<lambda>a b. sp_score b \<le> sp_score a) hits)"

section \<open>Retrieval Orchestrator (src/rag/query.py)\<close>

text \<open>The settings read from config.py.\<close>

record settings =
  COLLECTION_NAME :: string
  OPENAI_API_KEY :: string
  LLM_PROVIDER :: string

datatype prompt_template = RAG_PROMPT | TECHNICAL_RAG_PROMPT

text \<open>
  The collaborators of a query: the settings, the Qdrant client, the embedding model,
  the constructors of the OpenAI model (from the API key, with temperature 0.1 and at
  most 1000 tokens), of a prompt template and of the chain of the two, the run of a chain
  on \<open>(context, query)\<close>, and the two formatting built-ins the context string needs (a
  float to two decimals, the text of a list value).  A chain is known by its prompt.
\<close>

record 'st env =
  config :: settings
  client :: "'st qdrant_client"
  embed_query :: "string \<Rightarrow> 'st \<Rightarrow> (error + real list) \<times> 'st"
  new_llm :: "string \<Rightarrow> 'st \<Rightarrow> (error + unit) \<times> 'st"
  new_prompt :: "prompt_template \<Rightarrow> 'st \<Rightarrow> (error + unit) \<times> 'st"
  new_chain :: "prompt_template \<Rightarrow> 'st \<Rightarrow> (error + unit) \<times> 'st"
  llm_run :: "prompt_template \<Rightarrow> string \<Rightarrow> string \<Rightarrow> 'st \<Rightarrow> (error + string) \<times> 'st"
  format_2f :: "real \<Rightarrow> string"
  format_list :: "pyval list \<Rightarrow> string"

text \<open>One retrieved document: the dictionary built by \<^verbatim>\<open>query_qdrant\<close> for a hit.\<close>

record retrieved =
  r_text :: pyval
  r_source :: pyval
  r_product :: pyval
  r_score :: real
  r_id :: int

record context_bundle =
  b_query :: string
  b_context :: string
  b_sources :: "pyval list"
  b_answer :: "string option"

text \<open>Decimal text of a number, as \<^verbatim>\<open>str\<close> gives it.\<close>

function str_of_nat :: "nat \<Rightarrow> string" where
  "str_of_nat n =
     (if n < 10 then [char_of (48 + n)]
      else str_of_nat (n div 10) @ [char_of (48 + n mod 10)])"
  by pat_completeness auto
termination
  by (relation "measure (\<lambda>n. n)") auto

declare str_of_nat.simps [simp del]

fun py_str :: "(pyval list \<Rightarrow> string) \<Rightarrow> pyval \<Rightarrow> string" where
  "py_str fl (PStr s) = s"
| "py_str fl (PInt n) = (if n < 0 then ''-'' @ str_of_nat (nat (- n)) else str_of_nat (nat n))"
| "py_str fl (PList vs) = fl vs"

text \<open>\<^verbatim>\<open>s.split("/")[-1]\<close>: what follows the last slash.\<close>

definition last_component :: "string \<Rightarrow> string" where
  "last_component s = rev (takeWhile (\<lambda>c. c \<noteq> CHR ''/'') (rev s))"

text \<open>
  The label of entry \<open>i\<close>: the last path component of a non-empty source, else
  \<open>Document i+1\<close>; a truthy source that is not a string has no \<^verbatim>\<open>split\<close>.
\<close>

definition source_label :: "nat \<Rightarrow> pyval \<Rightarrow> error + string" where
  "source_label i v =
     (if truthy v then
        (case v of PStr s \<Rightarrow> Inr (last_component s) | _ \<Rightarrow> Inl (Raised ''AttributeError''))
      else Inr (''Document '' @ str_of_nat (i + 1)))"

definition context_part :: "'st env \<Rightarrow> nat \<Rightarrow> retrieved \<Rightarrow> error + string" where
  "context_part e i result =
     (case source_label i (r_source result) of
        Inl err \<Rightarrow> Inl err
      | Inr source \<Rightarrow>
          (let product = (if truthy (r_product result)
                          then '' ['' @ py_str (format_list e) (r_product result) @ '']''
                          else [])
           in Inr (''[Source: '' @ source @ product @ '', Score: ''
                     @ format_2f e (r_score result) @ '']'' @ [CHR 0x0A]
                     @ py_str (format_list e) (r_text result) @ [CHR 0x0A, CHR 0x0A])))"

fun context_parts :: "'st env \<Rightarrow> nat \<Rightarrow> retrieved list \<Rightarrow> error + string list" where
  "context_parts e i [] = Inr []"
| "context_parts e i (r # rs) =
     (case context_part e i r of
        Inl err \<Rightarrow> Inl err
      | Inr part \<Rightarrow>
          (case context_parts e (Suc i) rs of
             Inl err \<Rightarrow> Inl err
           | Inr parts \<Rightarrow> Inr (part # parts)))"

fun join :: "string \<Rightarrow> string list \<Rightarrow> string" where
  "join sep [] = []"
| "join sep [x] = x"
| "join sep (x # y # ys) = x @ sep @ join sep (y # ys)"

definition format_context :: "'st env \<Rightarrow> retrieved list \<Rightarrow> error + string" where
  "format_context e results =
     (case context_parts e 0 results of
        Inl err \<Rightarrow> Inl err
      | Inr parts \<Rightarrow> Inr (join [CHR 0x0A] parts))"

text \<open>The loop of \<^verbatim>\<open>query_qdrant\<close>: only hits whose payload has a \<open>text\<close> key are kept.\<close>

definition get_or :: "pydict \<Rightarrow> string \<Rightarrow> pyval \<Rightarrow> pyval" where
  "get_or d k dflt = (case d k of None \<Rightarrow> dflt | Some v \<Rightarrow> v)"

fun contexts_of :: "search_result list \<Rightarrow> retrieved list" where
  "contexts_of [] = []"
| "contexts_of (result # results) =
     (case res_payload result ''text'' of
        None \<Rightarrow> contexts_of results
      | Some t \<Rightarrow>
          \<lparr>r_text = t,
           r_source = get_or (res_payload result) ''source'' (PStr []),
           r_product = get_or (res_payload result) ''product'' (PStr []),
           r_score = res_score result,
           r_id = res_id result\<rparr> # contexts_of results)"

definition query_qdrant ::
  "'st env \<Rightarrow> string \<Rightarrow> int \<Rightarrow> (string \<times> pyval) list option \<Rightarrow> real option
     \<Rightarrow> 'st \<Rightarrow> (error + retrieved list) \<times> 'st" where
  "query_qdrant e query_text top_k filter_params threshold =
     and_then (embed_query e query_text)
       (\<lambda>qv. and_then
                (search_vectors (client e) (COLLECTION_NAME (config e)) qv
                   (Some (COLLECTION_NAME (config e))) filter_params top_k threshold)
                (\<lambda>search_results st. (Inr (contexts_of search_results), st)))"

text \<open>Lower-casing of a code point below 256.\<close>

definition lower_char :: "char \<Rightarrow> char" where
  "lower_char c =
     (let n = (of_char c :: nat)
      in if (65 \<le> n \<and> n \<le> 90) \<or> (192 \<le> n \<and> n \<le> 222 \<and> n \<noteq> 215) then char_of (n + 32) else c)"

text \<open>
  \<^verbatim>\<open>get_llm_chain\<close>: no chain for a provider other than \<open>openai\<close> or for an empty API
  key; otherwise the model, the prompt and the chain are constructed in this order, and
  an exception raised by a constructor ends the call.
\<close>

definition get_llm_chain :: "'st env \<Rightarrow> bool \<Rightarrow> 'st \<Rightarrow> (error + prompt_template option) \<times> 'st" where
  "get_llm_chain e is_technical =
     (if map lower_char (LLM_PROVIDER (config e)) = ''openai'' then
        (if OPENAI_API_KEY (config e) = [] then (\<lambda>st. (Inr None, st))
         else
           and_then (new_llm e (OPENAI_API_KEY (config e)))
             (\<lambda>_. let prompt = (if is_technical then TECHNICAL_RAG_PROMPT else RAG_PROMPT)
                  in and_then (new_prompt e prompt)
                       (\<lambda>_. and_then (new_chain e prompt)
                                (\<lambda>_ st. (Inr (Some prompt), st)))))
      else (\<lambda>st. (Inr None, st)))"

definition no_information :: string where
  "no_information =
     ''I couldn't find any relevant information to answer your question about Cyanview systems.''"

definition generation_error :: string where
  "generation_error = ''Error generating answer based on the retrieved context.''"

text \<open>
  What \<^verbatim>\<open>rag_query\<close> does with the retrieved documents: the canned bundle for none;
  otherwise context and sources, then \<^verbatim>\<open>get_llm_chain\<close>, outside the \<^verbatim>\<open>try\<close>; an
  answer only when a chain is configured, with the error text in place of the answer when
  the run of the chain raises an \<^verbatim>\<open>Exception\<close>.  Any other exception of the run is not
  caught.
\<close>

definition respond ::
  "'st env \<Rightarrow> string \<Rightarrow> bool \<Rightarrow> retrieved list \<Rightarrow> 'st \<Rightarrow> (error + context_bundle) \<times> 'st" where
  "respond e query_text is_technical search_results st =
     (if search_results = [] then
        (Inr \<lparr>b_query = query_text, b_context = [], b_sources = [],
              b_answer = Some no_information\<rparr>, st)
      else
        (case format_context e search_results of
           Inl err \<Rightarrow> (Inl err, st)
         | Inr ctx \<Rightarrow>
             (let sources = map r_source search_results;
                  response = \<lparr>b_query = query_text, b_context = ctx, b_sources = sources,
                              b_answer = None\<rparr>
              in case get_llm_chain e is_technical st of
                   (Inl err, st1) \<Rightarrow> (Inl err, st1)
                 | (Inr None, st1) \<Rightarrow> (Inr response, st1)
                 | (Inr (Some llm_chain), st1) \<Rightarrow>
                     (case llm_run e llm_chain ctx query_text st1 of
                        (Inr answer, st2) \<Rightarrow> (Inr (response\<lparr>b_answer := Some answer\<rparr>), st2)
                      | (Inl (Raised name), st2) \<Rightarrow>
                          (Inr (response\<lparr>b_answer := Some generation_error\<rparr>), st2)
                      | (Inl (RaisedBase name), st2) \<Rightarrow> (Inl (RaisedBase name), st2)))))"

definition rag_query ::
  "'st env \<Rightarrow> string \<Rightarrow> int \<Rightarrow> (string \<times> pyval) list option \<Rightarrow> real option \<Rightarrow> bool
     \<Rightarrow> 'st \<Rightarrow> (error + context_bundle) \<times> 'st" where
  "rag_query e query_text top_k filter_params threshold is_technical =
     and_then (query_qdrant e query_text top_k filter_params threshold)
       (respond e query_text is_technical)"

section \<open>Stand-ins for the collaborators\<close>

text \<open>
  Fixed collaborators on which the theorems below are exercised, in the manner of the
  mocks of the test suite: a splitter that returns given pieces, a client over an
  in-memory list of collections whose search returns given hits or raises, an embedding
  model that returns a fixed vector, and a chain run that counts its calls in the state.
\<close>

definition stub_splitter :: "string list \<Rightarrow> text_splitter" where
  "stub_splitter pieces = (\<lambda>chunk_size chunk_overlap seps content. pieces)"

definition list_client :: "(error + scored_point list) \<Rightarrow> (string \<times> int) list qdrant_client" where
  "list_client outcome =
     \<lparr>get_collections = (\<lambda>st. (Inr (map fst st), st)),
      delete_collection = (\<lambda>name st. (Inr (), filter (\<lambda>c. fst c \<noteq> name) st)),
      client_create_collection = (\<lambda>name vp threshold st. (Inr (), (name, vp_size vp) # st)),
      create_payload_index = (\<lambda>name field schema st. (Inr (), st)),
      search = (\<lambda>params st. (outcome, st))\<rparr>"

text \<open>
  A client whose search applies the limit and the threshold of the request to hits held
  in descending order of score.
\<close>

definition scoring_client :: "scored_point list \<Rightarrow> unit qdrant_client" where
  "scoring_client hits =
     \<lparr>get_collections = (\<lambda>st. (Inr [], st)),
      delete_collection = (\<lambda>name st. (Inr (), st)),
      client_create_collection = (\<lambda>name vp threshold st. (Inr (), st)),
      create_payload_index = (\<lambda>name field schema st. (Inr (), st)),
      search = (\<lambda>params st.
        (Inr (take (nat (p_limit params))
                (filter (\<lambda>h. case p_score_threshold params of
                                None \<Rightarrow> True | Some t \<Rightarrow> t \<le> sp_score h) hits)), st))\<rparr>"

definition counting_client :: "(error + scored_point list) \<Rightarrow> nat qdrant_client" where
  "counting_client outcome =
     \<lparr>get_collections = (\<lambda>st. (Inr [], st)),
      delete_collection = (\<lambda>name st. (Inr (), st)),
      client_create_collection = (\<lambda>name vp threshold st. (Inr (), st)),
      create_payload_index = (\<lambda>name field schema st. (Inr (), st)),
      search = (\<lambda>params st. (outcome, st))\<rparr>"

text \<open>
  The decimal text of a score rounded to hundredths: what \<^verbatim>\<open>:.2f\<close> prints for a float
  that does not lie half-way between two hundredths.
\<close>

definition two_decimals :: "real \<Rightarrow> string" where
  "two_decimals x =
     (let n = nat (round (\<bar>x\<bar> * 100))
      in (if x < 0 then ''-'' else []) @ str_of_nat (n div 100) @ ''.''
           @ [char_of (48 + n mod 100 div 10), char_of (48 + n mod 10)])"

text \<open>
  An environment whose state is the number of chain runs so far; \<open>key\<close> is the API key
  and \<open>generated\<close> what a run of the chain gives.  Its constructors succeed.
\<close>

definition stub_env :: "string \<Rightarrow> (error + scored_point list) \<Rightarrow> (error + string) \<Rightarrow> nat env" where
  "stub_env key outcome generated =
     \<lparr>config = \<lparr>COLLECTION_NAME = ''cyanview_docs'', OPENAI_API_KEY = key,
                 LLM_PROVIDER = ''OpenAI''\<rparr>,
      client = counting_client outcome,
      embed_query = (\<lambda>q st. (Inr [1 / 10, 2 / 10, 3 / 10], st)),
      new_llm = (\<lambda>key st. (Inr (), st)),
      new_prompt = (\<lambda>prompt st. (Inr (), st)),
      new_chain = (\<lambda>prompt st. (Inr (), st)),
      llm_run = (\<lambda>chain ctx q st. (generated, Suc st)),
      format_2f = two_decimals,
      format_list = (\<lambda>vs. ''[]'')\<rparr>"

definition hit :: "int \<Rightarrow> real \<Rightarrow> (string \<times> pyval) list \<Rightarrow> scored_point" where
  "hit i s kvs = \<lparr>sp_id = i, sp_score = s, sp_payload = map_of kvs\<rparr>"

section \<open>Chunk ordinals\<close>

lemma length_emit_chunks: "length (emit_chunks doc n i cs) = length cs"
  by (induction cs arbitrary: i) simp_all

lemma emit_chunks_chunk:
  "map (\<lambda>c. metadata c ''chunk'') (emit_chunks doc n i cs)
     = map (\<lambda>k. Some (PInt (int k))) [i ..< i + length cs]"
proof (induction cs arbitrary: i)
  case Nil
  show ?case by simp
next
  case (Cons c cs)
  have "[i ..< i + length (c # cs)] = i # [Suc i ..< Suc i + length cs]"
    by (simp add: upt_rec)
  with Cons.IH [of "Suc i"] show ?case
    by (simp add: make_chunk_def)
qed

lemma emit_chunks_chunk_total:
  "map (\<lambda>c. metadata c ''chunk_total'') (emit_chunks doc n i cs)
     = replicate (length cs) (Some (PInt (int n)))"
  by (induction cs arbitrary: i) (simp_all add: make_chunk_def)

lemma split_documents_concat:
  "split_documents sp docs cs co = concat (map (split_document sp cs co) docs)"
  by (induction docs) simp_all

text \<open>
  C9.  Chunks are appended document by document, and for every document the chunks
  emitted are as many as the pieces of its text; each carries that number as
  \<open>chunk_total\<close>, and the \<open>chunk\<close> ordinals are \<open>0, 1, \<dots>, chunk_total - 1\<close> in order,
  so that \<open>0 \<le> chunk < chunk_total\<close> for every emitted chunk.
\<close>

theorem chunk_bounds:
  "split_documents split_text docs chunk_size chunk_overlap
     = concat (map (split_document split_text chunk_size chunk_overlap) docs)
   \<and> (let chunks = split_document split_text chunk_size chunk_overlap doc;
           n = length chunks
       in n = length (split_text chunk_size chunk_overlap separators (page_content doc))
          \<and> map (\<lambda>c. metadata c ''chunk_total'') chunks = replicate n (Some (PInt (int n)))
          \<and> map (\<lambda>c. metadata c ''chunk'') chunks = map (\<lambda>k. Some (PInt (int k))) [0 ..< n]
          \<and> (\<forall>c \<in> set chunks. \<exists>i t. metadata c ''chunk'' = Some (PInt i)
                \<and> metadata c ''chunk_total'' = Some (PInt t) \<and> 0 \<le> i \<and> i < t))"
proof -
  let ?ps = "split_text chunk_size chunk_overlap separators (page_content doc)"
  let ?n = "length ?ps"
  let ?chunks = "emit_chunks doc ?n 0 ?ps"
  have eq: "split_document split_text chunk_size chunk_overlap doc = ?chunks"
    by (simp add: split_document_def Let_def)
  have len: "length ?chunks = ?n" by (rule length_emit_chunks)
  have tot: "map (\<lambda>c. metadata c ''chunk_total'') ?chunks = replicate ?n (Some (PInt (int ?n)))"
    by (rule emit_chunks_chunk_total)
  have ord: "map (\<lambda>c. metadata c ''chunk'') ?chunks = map (\<lambda>k. Some (PInt (int k))) [0 ..< ?n]"
    using emit_chunks_chunk [of doc ?n 0 ?ps] by simp
  have each: "\<exists>i t. metadata c ''chunk'' = Some (PInt i)
                \<and> metadata c ''chunk_total'' = Some (PInt t) \<and> 0 \<le> i \<and> i < t"
    if "c \<in> set ?chunks" for c
  proof -
    from that obtain k where k: "k < ?n" and c: "c = ?chunks ! k"
      by (metis in_set_conv_nth len)
    have "metadata c ''chunk'' = map (\<lambda>c. metadata c ''chunk'') ?chunks ! k"
      using k c len by simp
    also have "\<dots> = Some (PInt (int k))"
      using k by (simp only: ord) simp
    finally have 1: "metadata c ''chunk'' = Some (PInt (int k))" .
    have "metadata c ''chunk_total'' = map (\<lambda>c. metadata c ''chunk_total'') ?chunks ! k"
      using k c len by simp
    also have "\<dots> = Some (PInt (int ?n))"
      using k by (simp only: tot) simp
    finally have 2: "metadata c ''chunk_total'' = Some (PInt (int ?n))" .
    from 1 2 k show ?thesis by simp
  qed
  show ?thesis
    using len tot ord each by (simp add: split_documents_concat eq Let_def)
qed

theorem chunk_bounds_witness:
  "map (\<lambda>c. metadata c ''chunk'')
     (split_document (stub_splitter [''ab'', ''cd'']) 2 0
        \<lparr>page_content = ''abcd'', metadata = Map.empty\<rparr>)
     = [Some (PInt 0), Some (PInt 1)]
   \<and> map (\<lambda>c. metadata c ''chunk_total'')
     (split_document (stub_splitter [''ab'', ''cd'']) 2 0
        \<lparr>page_content = ''abcd'', metadata = Map.empty\<rparr>)
     = [Some (PInt 2), Some (PInt 2)]"
  using chunk_bounds [of "stub_splitter [''ab'', ''cd'']" "[]" 2 0
        "\<lparr>page_content = ''abcd'', metadata = Map.empty\<rparr>"]
  by (simp add: split_document_def Let_def stub_splitter_def make_chunk_def)

section \<open>Q\&A repair\<close>

lemma py_find_found:
  assumes "py_find s sub start \<noteq> -1"
  shows "0 \<le> py_find s sub start \<and> occurs_at s sub (nat (py_find s sub start))
         \<and> nat (py_find s sub start) + length sub \<le> length s"
proof -
  let ?st = "if start < 0 then max 0 (start + int (length s)) else start"
  from assms obtain i where f: "List.find (occurs_at s sub) [nat ?st ..< Suc (length s) - length sub] = Some i"
    and a: "py_find s sub start = int i"
    by (auto simp: py_find_def Let_def split: option.splits)
  from f have "occurs_at s sub i" "i < Suc (length s) - length sub"
    by (auto simp: find_Some_iff)
  with a show ?thesis by auto
qed

lemma emit_chunks_texts:
  "map page_content (emit_chunks doc n i cs) = map (qa_repair doc) cs"
  by (induction cs arbitrary: i) (simp_all add: make_chunk_def)

lemma split_document_texts:
  "map page_content (split_document sp cs co doc)
     = map (qa_repair doc) (sp cs co separators (page_content doc))"
  by (simp add: split_document_def Let_def emit_chunks_texts)

lemma split_document_keeps_pieces:
  assumes "metadata doc ''type'' \<noteq> Some (PStr ''qa'')"
  shows "map page_content (split_document sp cs co doc)
           = sp cs co separators (page_content doc)"
proof -
  from assms have "qa_repair doc = (\<lambda>c. c)"
    by (intro ext) (simp add: qa_repair_def)
  then show ?thesis by (simp add: split_document_texts)
qed

lemma qa_repair_found:
  assumes qa: "metadata doc ''type'' = Some (PStr ''qa'')"
    and q: "py_in ''Q: '' c" and na: "\<not> py_in ''A: '' c"
    and found: "answer_start (page_content doc) (question_of c) \<noteq> -1"
  shows "qa_repair doc c = question_of c @ [CHR 0x0A]
            @ take 200 (drop (nat (answer_start (page_content doc) (question_of c))) (page_content doc))
            @ ''...''"
    and "take 3 (question_of c) = ''Q: ''"
    and "take 3 (take 200 (drop (nat (answer_start (page_content doc) (question_of c))) (page_content doc))) = ''A: ''"
proof -
  let ?full = "page_content doc"
  let ?a = "answer_start ?full (question_of c)"
  from found have fa: "occurs_at ?full ''A: '' (nat ?a)" "nat ?a + 3 \<le> length ?full"
    using py_find_found [of ?full "''A: ''" "py_find ?full (question_of c) 0"]
    by (simp_all add: answer_start_def)
  have "min 200 (length ?full - nat ?a) = min 200 (length (drop (nat ?a) ?full))" by simp
  then have sl: "slice ?full (nat ?a) (nat ?a + min 200 (length ?full - nat ?a))
                  = take 200 (drop (nat ?a) ?full)"
    by (simp add: slice_def min_def)
  show "qa_repair doc c = question_of c @ [CHR 0x0A] @ take 200 (drop (nat ?a) ?full) @ ''...''"
    using qa q na found by (simp add: qa_repair_def Let_def sl)
  from q have "occurs_at c ''Q: '' (nat (py_find c ''Q: '' 0))"
    using py_find_found [of c "''Q: ''" 0] by (simp add: py_in_def)
  then show "take 3 (question_of c) = ''Q: ''"
    by (simp add: question_of_def slice_from_def occurs_at_def numeral_3_eq_3)
  from fa(1) have "take 3 (drop (nat ?a) ?full) = ''A: ''"
    by (simp add: occurs_at_def numeral_3_eq_3)
  then show "take 3 (take 200 (drop (nat ?a) ?full)) = ''A: ''"
    by simp
qed

text \<open>
  C3 (as amended).  For a document of type \<open>qa\<close> and a piece \<open>c\<close> of its text that holds
  \<open>Q: \<close> but not \<open>A: \<close>: when the answer marker is found in the original text from
  the first occurrence of the question on, the emitted chunk is the question, a newline,
  an excerpt and \<open>...\<close>, where the excerpt is the original text from the answer marker
  on, cut at 200 characters; it starts with \<open>A: \<close> and is not empty.  When no answer
  marker is found there, the piece is emitted unchanged.
\<close>

theorem qa_repair_appends_answer:
  assumes qa: "metadata doc ''type'' = Some (PStr ''qa'')"
    and i: "i < length (split_text chunk_size chunk_overlap separators (page_content doc))"
    and c: "c = split_text chunk_size chunk_overlap separators (page_content doc) ! i"
    and q: "py_in ''Q: '' c" and na: "\<not> py_in ''A: '' c"
    and a: "a = answer_start (page_content doc) (question_of c)"
  shows "if a \<noteq> -1
         then \<exists>excerpt.
                page_content (split_document split_text chunk_size chunk_overlap doc ! i)
                  = question_of c @ [CHR 0x0A] @ excerpt @ ''...''
                \<and> excerpt = take 200 (drop (nat a) (page_content doc))
                \<and> take 3 (question_of c) = ''Q: ''
                \<and> take 3 excerpt = ''A: '' \<and> excerpt \<noteq> [] \<and> length excerpt \<le> 200
         else page_content (split_document split_text chunk_size chunk_overlap doc ! i) = c"
proof -
  let ?pieces = "split_text chunk_size chunk_overlap separators (page_content doc)"
  have "page_content (split_document split_text chunk_size chunk_overlap doc ! i)
          = map page_content (split_document split_text chunk_size chunk_overlap doc) ! i"
    using i by (simp add: split_document_def Let_def length_emit_chunks)
  also have "\<dots> = qa_repair doc c"
    using i c by (simp add: split_document_texts)
  finally have emitted:
    "page_content (split_document split_text chunk_size chunk_overlap doc ! i) = qa_repair doc c" .
  show ?thesis
  proof (cases "a = -1")
    case True
    then have "qa_repair doc c = c"
      using a by (simp add: qa_repair_def Let_def)
    with True emitted show ?thesis by simp
  next
    case False
    let ?ex = "take 200 (drop (nat a) (page_content doc))"
    from False a have found: "answer_start (page_content doc) (question_of c) \<noteq> -1" by simp
    note r = qa_repair_found [OF qa q na found]
    have 1: "qa_repair doc c = question_of c @ [CHR 0x0A] @ ?ex @ ''...''"
      using r(1) a by simp
    have 2: "take 3 ?ex = ''A: ''" using r(3) a by simp
    then have 3: "?ex \<noteq> []" by auto
    have 4: "length ?ex \<le> 200" by simp
    from False emitted 1 2 3 4 r(2) show ?thesis by simp
  qed
qed

theorem qa_repair_appends_answer_witness:
  "page_content
     (split_document (stub_splitter [''Q: What is X?'', ''A: X is a widget used for...'']) 20 0
        \<lparr>page_content = ''Q: What is X?'' @ [CHR 0x0A] @ ''A: X is a widget used for...'',
         metadata = [''type'' \<mapsto> PStr ''qa'']\<rparr> ! 0)
     = ''Q: What is X?'' @ [CHR 0x0A] @ ''A: X is a widget used for...'' @ ''...''"
proof -
  let ?full = "''Q: What is X?'' @ [CHR 0x0A] @ ''A: X is a widget used for...''"
  let ?doc = "\<lparr>page_content = ?full, metadata = [''type'' \<mapsto> PStr ''qa'']\<rparr>"
  let ?sp = "stub_splitter [''Q: What is X?'', ''A: X is a widget used for...'']"
  have h1: "metadata ?doc ''type'' = Some (PStr ''qa'')" by simp
  have h2: "0 < length (?sp 20 0 separators (page_content ?doc))"
    by (simp add: stub_splitter_def)
  have h3: "''Q: What is X?'' = ?sp 20 0 separators (page_content ?doc) ! 0"
    by (simp add: stub_splitter_def)
  have h4: "py_in ''Q: '' ''Q: What is X?''" by code_simp
  have h5: "\<not> py_in ''A: '' ''Q: What is X?''" by code_simp
  have q: "question_of ''Q: What is X?'' = ''Q: What is X?''" by code_simp
  have h6: "14 = answer_start (page_content ?doc) (question_of ''Q: What is X?'')"
    unfolding q by code_simp
  have ex: "take 200 (drop (nat 14) ?full) = ''A: X is a widget used for...''" by code_simp
  from qa_repair_appends_answer [of ?doc 0 ?sp 20 0 "''Q: What is X?''" 14, OF h1 h2 h3 h4 h5 h6]
    q ex show ?thesis
    by simp
qed

text \<open>
  C3 as stated fails where the original text has no answer marker behind the question.
  The text below is Q\&A content for the metadata extractor (a question mark followed by
  a capital), so its document is of type \<open>qa\<close>; its only chunk holds \<open>Q: \<close> and not
  \<open>A: \<close>, and is emitted as it is, with no excerpt.
\<close>

theorem qa_repair_counterexample:
  "is_qa_content ''FAQ: Is the RCP wireless? Yes.''
   \<and> py_in ''Q: '' ''FAQ: Is the RCP wireless? Yes.''
   \<and> \<not> py_in ''A: '' ''FAQ: Is the RCP wireless? Yes.''
   \<and> map page_content
        (split_document (stub_splitter [''FAQ: Is the RCP wireless? Yes.'']) 1000 200
           \<lparr>page_content = ''FAQ: Is the RCP wireless? Yes.'',
            metadata = [''type'' \<mapsto> PStr ''qa'']\<rparr>)
       = [''FAQ: Is the RCP wireless? Yes.'']"
proof -
  have 0: "is_qa_content ''FAQ: Is the RCP wireless? Yes.''" by code_simp
  have 1: "py_in ''Q: '' ''FAQ: Is the RCP wireless? Yes.''" by code_simp
  have 2: "\<not> py_in ''A: '' ''FAQ: Is the RCP wireless? Yes.''" by code_simp
  have 3: "map page_content
        (split_document (stub_splitter [''FAQ: Is the RCP wireless? Yes.'']) 1000 200
           \<lparr>page_content = ''FAQ: Is the RCP wireless? Yes.'',
            metadata = [''type'' \<mapsto> PStr ''qa'']\<rparr>)
       = [''FAQ: Is the RCP wireless? Yes.'']" by code_simp
  from 0 1 2 3 show ?thesis by simp
qed

section \<open>Vector search and query path\<close>

lemma name_or_default_same: "name_or_default (Some n) n = n"
  by (simp add: name_or_default_def)

lemma contexts_of_filter:
  "contexts_of rs = contexts_of (filter (\<lambda>r. res_payload r ''text'' \<noteq> None) rs)"
  by (induction rs) (auto split: option.splits)

lemma length_contexts_of:
  "length (contexts_of rs) = length (filter (\<lambda>r. res_payload r ''text'' \<noteq> None) rs)"
  by (induction rs) (auto split: option.splits)

lemma contexts_of_ids:
  "map r_id (contexts_of rs) = map res_id (filter (\<lambda>r. res_payload r ''text'' \<noteq> None) rs)"
  by (induction rs) (auto split: option.splits)

lemma contexts_of_sources:
  "map r_source (contexts_of rs)
     = map (\<lambda>r. get_or (res_payload r) ''source'' (PStr [])) (filter (\<lambda>r. res_payload r ''text'' \<noteq> None) rs)"
  by (induction rs) (auto split: option.splits)

lemma filter_format_result:
  "filter (\<lambda>r. res_payload r ''text'' \<noteq> None) (map format_result hits)
     = map format_result (filter (\<lambda>h. sp_payload h ''text'' \<noteq> None) hits)"
  by (induction hits) (simp_all add: format_result_def)

lemma search_vectors_result:
  assumes "search cl (build_search_params (name_or_default cn dflt) qv fp top_k th) st = (r, st')"
  shows "search_vectors cl dflt qv cn fp top_k th st
           = (case r of Inl err \<Rightarrow> Inl err | Inr hits \<Rightarrow> Inr (map format_result hits), st')"
  using assms by (simp add: search_vectors_def and_then_def Let_def split: sum.splits)

lemma query_qdrant_result:
  assumes "embed_query e q st = (Inr qv, st1)"
    and "search (client e) (build_search_params (COLLECTION_NAME (config e)) qv fp top_k th) st1 = (r, st2)"
  shows "query_qdrant e q top_k fp th st
           = (case r of Inl err \<Rightarrow> Inl err
                | Inr hits \<Rightarrow> Inr (contexts_of (map format_result hits)), st2)"
proof -
  have "search_vectors (client e) (COLLECTION_NAME (config e)) qv
          (Some (COLLECTION_NAME (config e))) fp top_k th st1
        = (case r of Inl err \<Rightarrow> Inl err | Inr hits \<Rightarrow> Inr (map format_result hits), st2)"
    using assms(2) by (intro search_vectors_result) (simp add: name_or_default_same)
  then show ?thesis
    using assms(1) by (simp add: query_qdrant_def and_then_def split: sum.splits)
qed

lemma query_qdrant_llm_irrelevant:
  "query_qdrant (e\<lparr>llm_run := f\<rparr>) q top_k fp th st = query_qdrant e q top_k fp th st"
  by (simp add: query_qdrant_def)

lemma and_then_Inl:
  assumes "and_then m f st = (Inl err, st')"
  shows "(\<exists>s. fst (m s) = Inl err) \<or> (\<exists>x s. fst (f x s) = Inl err)"
proof (cases "m st")
  case (Pair r s1)
  show ?thesis
  proof (cases r)
    case (Inl e)
    with Pair assms have "fst (m st) = Inl err" by (simp add: and_then_def)
    then show ?thesis by blast
  next
    case (Inr x)
    with Pair assms have "fst (f x s1) = Inl err" by (simp add: and_then_def)
    then show ?thesis by blast
  qed
qed

lemma create_steps_Inl:
  assumes "create_steps cl name vector_size st = (Inl err, st')"
  shows "(\<exists>s. fst (client_create_collection cl name
                     \<lparr>vp_size = vector_size, vp_distance = COSINE\<rparr> 0 s) = Inl err)
         \<or> (\<exists>s. fst (create_payload_index cl name ''product'' KEYWORD s) = Inl err)
         \<or> (\<exists>s. fst (create_payload_index cl name ''type'' KEYWORD s) = Inl err)"
proof -
  from and_then_Inl [OF assms [unfolded create_steps_def]]
  show ?thesis
  proof
    assume "\<exists>s. fst (client_create_collection cl name
                     \<lparr>vp_size = vector_size, vp_distance = COSINE\<rparr> 0 s) = Inl err"
    then show ?thesis by blast
  next
    assume "\<exists>x s. fst (and_then (create_payload_index cl name ''product'' KEYWORD)
              (\<lambda>_. create_payload_index cl name ''type'' KEYWORD) s) = Inl err"
    then obtain s where "fst (and_then (create_payload_index cl name ''product'' KEYWORD)
              (\<lambda>_. create_payload_index cl name ''type'' KEYWORD) s) = Inl err" by blast
    then obtain s' where "and_then (create_payload_index cl name ''product'' KEYWORD)
              (\<lambda>_. create_payload_index cl name ''type'' KEYWORD) s = (Inl err, s')"
      by (metis prod.collapse)
    from and_then_Inl [OF this] show ?thesis by blast
  qed
qed

lemma scoring_client_honours:
  assumes "sorted_wrt (\<lambda>a b. sp_score b \<le> sp_score a) hits"
  shows "honours_request (scoring_client hits)"
proof -
  let ?ok = "\<lambda>params h. case p_score_threshold params of None \<Rightarrow> True | Some t \<Rightarrow> t \<le> sp_score h"
  have ord: "sorted_wrt (\<lambda>a b. sp_score b \<le> sp_score a) (take n (filter P hits))" for n P
    using assms by (intro sorted_wrt_take sorted_wrt_filter)
  have thr: "t \<le> sp_score h"
    if "p_score_threshold params = Some t" "h \<in> set (take n (filter (?ok params) hits))"
    for params t h n
  proof -
    from that(2) have "h \<in> set (filter (?ok params) hits)" by (rule in_set_takeD)
    with that(1) show ?thesis by simp
  qed
  show ?thesis
    unfolding honours_request_def
  proof (intro allI impI)
    fix params st hs st'
    assume "search (scoring_client hits) params st = (Inr hs, st')"
    then have hs: "hs = take (nat (p_limit params)) (filter (?ok params) hits)"
      by (simp add: scoring_client_def)
    have "length hs \<le> nat (p_limit params)" by (simp add: hs)
    moreover have "\<forall>t. p_score_threshold params = Some t \<longrightarrow> (\<forall>h \<in> set hs. t \<le> sp_score h)"
      using thr unfolding hs by blast
    moreover have "sorted_wrt (\<lambda>a b. sp_score b \<le> sp_score a) hs"
      unfolding hs by (rule ord)
    ultimately show "length hs \<le> nat (p_limit params)
          \<and> (\<forall>t. p_score_threshold params = Some t \<longrightarrow> (\<forall>h \<in> set hs. t \<le> sp_score h))
          \<and> sorted_wrt (\<lambda>a b. sp_score b \<le> sp_score a) hs"
      by blast
  qed
qed

text \<open>
  C1 (as amended).  \<open>search_vectors\<close> sends one request to the backend, with the
  collection name, the query vector, \<open>top_k\<close> as the limit, one equality condition per
  entry of a non-empty filter, and the threshold as the score threshold; it passes an
  error of the backend on, and otherwise returns the hits of the backend one for one, in the order of the backend, with id,
  score and payload unchanged, whatever the backend answers.  Hence against a backend
  that honours the limit and the threshold of a request and answers in descending order
  of score, the results are at most \<open>top_k\<close>, each at or above the threshold when one is
  given, in descending order of score; equal scores stay in the order the backend gave
  them.
\<close>

theorem search_vectors_forwards:
  assumes name: "name = (case cn of None \<Rightarrow> dflt | Some n \<Rightarrow> if n = [] then dflt else n)"
    and cond: "conditions =
                 (case fp of
                    None \<Rightarrow> None
                  | Some kvs \<Rightarrow>
                      if kvs = [] then None
                      else Some (map (\<lambda>(key, v). \<lparr>fc_key = key, fc_match = v\<rparr>) kvs))"
    and srch: "search cl \<lparr>p_collection_name = name, p_query_vector = qv, p_limit = top_k,
                           p_query_filter = conditions, p_score_threshold = th\<rparr> st
                 = (r, st')"
  shows "(\<forall>err. r = Inl err \<longrightarrow>
            search_vectors cl dflt qv cn fp top_k th st = (Inl err, st'))
         \<and> (\<forall>hits. r = Inr hits \<longrightarrow>
               (\<exists>rs. search_vectors cl dflt qv cn fp top_k th st = (Inr rs, st')
                  \<and> map res_id rs = map sp_id hits
                  \<and> map res_score rs = map sp_score hits
                  \<and> map res_payload rs = map sp_payload hits
                  \<and> (honours_request cl \<longrightarrow>
                        length rs \<le> nat top_k
                        \<and> (\<forall>t. th = Some t \<longrightarrow> (\<forall>x \<in> set rs. t \<le> res_score x))
                        \<and> sorted_wrt (\<lambda>a b. res_score b \<le> res_score a) rs)))"
proof -
  let ?params = "\<lparr>p_collection_name = name, p_query_vector = qv, p_limit = top_k,
                  p_query_filter = conditions, p_score_threshold = th\<rparr>"
  have params: "build_search_params (name_or_default cn dflt) qv fp top_k th = ?params"
    by (simp add: build_search_params_def name_or_default_def name cond)
  from srch have srch': "search cl (build_search_params (name_or_default cn dflt) qv fp top_k th) st
                           = (r, st')"
    by (simp only: params)
  have err: "search_vectors cl dflt qv cn fp top_k th st = (Inl e, st')" if "r = Inl e" for e
    using search_vectors_result [OF srch'] that by simp
  have ok: "\<exists>rs. search_vectors cl dflt qv cn fp top_k th st = (Inr rs, st')
                  \<and> map res_id rs = map sp_id hits
                  \<and> map res_score rs = map sp_score hits
                  \<and> map res_payload rs = map sp_payload hits
                  \<and> (honours_request cl \<longrightarrow>
                        length rs \<le> nat top_k
                        \<and> (\<forall>t. th = Some t \<longrightarrow> (\<forall>x \<in> set rs. t \<le> res_score x))
                        \<and> sorted_wrt (\<lambda>a b. res_score b \<le> res_score a) rs)"
    if r: "r = Inr hits" for hits
  proof -
    let ?rs = "map format_result hits"
    have 1: "search_vectors cl dflt qv cn fp top_k th st = (Inr ?rs, st')"
      using search_vectors_result [OF srch'] r by simp
    have 2: "map res_id ?rs = map sp_id hits" "map res_score ?rs = map sp_score hits"
      "map res_payload ?rs = map sp_payload hits"
      by (simp_all add: format_result_def)
    have 3: "length ?rs \<le> nat top_k
             \<and> (\<forall>t. th = Some t \<longrightarrow> (\<forall>x \<in> set ?rs. t \<le> res_score x))
             \<and> sorted_wrt (\<lambda>a b. res_score b \<le> res_score a) ?rs"
      if h: "honours_request cl"
    proof -
      from h srch r
      have c: "length hits \<le> nat (p_limit ?params)"
        "\<forall>t. p_score_threshold ?params = Some t \<longrightarrow> (\<forall>h \<in> set hits. t \<le> sp_score h)"
        "sorted_wrt (\<lambda>a b. sp_score b \<le> sp_score a) hits"
        unfolding honours_request_def by blast+
      from c(1) have "length ?rs \<le> nat top_k" by simp
      moreover from c(2) have "\<forall>t. th = Some t \<longrightarrow> (\<forall>x \<in> set ?rs. t \<le> res_score x)"
        by (auto simp: format_result_def)
      moreover from c(3) have "sorted_wrt (\<lambda>a b. res_score b \<le> res_score a) ?rs"
        by (simp add: sorted_wrt_map format_result_def)
      ultimately show ?thesis by blast
    qed
    from 1 2 3 show ?thesis by blast
  qed
  from err ok show ?thesis by blast
qed

theorem search_vectors_forwards_witness:
  "honours_request
     (scoring_client [hit 7 (95 / 100) [], hit 3 (72 / 100) [], hit 5 (65 / 100) []])
   \<and> fst (search_vectors
        (scoring_client [hit 7 (95 / 100) [], hit 3 (72 / 100) [], hit 5 (65 / 100) []])
        ''cyanview_docs'' [1 / 10] None None 5 (Some (7 / 10)) ())
      = Inr [\<lparr>res_id = 7, res_score = 95 / 100, res_payload = Map.empty\<rparr>,
             \<lparr>res_id = 3, res_score = 72 / 100, res_payload = Map.empty\<rparr>]"
proof -
  let ?cl = "scoring_client [hit 7 (95 / 100) [], hit 3 (72 / 100) [], hit 5 (65 / 100) []]"
  let ?hits = "[hit 7 (95 / 100) [], hit 3 (72 / 100) []]"
  have h0: "honours_request ?cl"
    by (rule scoring_client_honours) (simp add: hit_def)
  have h1: "search ?cl \<lparr>p_collection_name = ''cyanview_docs'', p_query_vector = [1 / 10],
                         p_limit = 5, p_query_filter = None,
                         p_score_threshold = Some (7 / 10)\<rparr> () = (Inr ?hits, ())"
    by (simp add: scoring_client_def hit_def)
  have n: "''cyanview_docs''
             = (case None of None \<Rightarrow> ''cyanview_docs'' | Some n \<Rightarrow> if n = [] then ''cyanview_docs'' else n)"
    by simp
  have c: "(None :: field_condition list option)
             = (case (None :: (string \<times> pyval) list option) of
                  None \<Rightarrow> None
                | Some kvs \<Rightarrow>
                    if kvs = [] then None
                    else Some (map (\<lambda>(key, v). \<lparr>fc_key = key, fc_match = v\<rparr>) kvs))"
    by simp
  from search_vectors_forwards [OF n c h1]
  obtain rs where rs: "search_vectors ?cl ''cyanview_docs'' [1 / 10] None None 5 (Some (7 / 10)) ()
                         = (Inr rs, ())"
    and ids: "map res_id rs = map sp_id ?hits"
    and scores: "map res_score rs = map sp_score ?hits"
    and payloads: "map res_payload rs = map sp_payload ?hits"
    by blast
  from ids obtain a b where ab: "rs = [a, b]"
    by (auto simp: map_eq_Cons_conv)
  from ids scores payloads have "rs = [\<lparr>res_id = 7, res_score = 95 / 100, res_payload = Map.empty\<rparr>,
             \<lparr>res_id = 3, res_score = 72 / 100, res_payload = Map.empty\<rparr>]"
    unfolding ab by (cases a; cases b) (simp add: hit_def)
  with rs h0 show ?thesis by simp
qed

text \<open>
  C1 as stated fails on ties: nothing in \<open>search_vectors\<close> orders the results.  A backend
  that honours limit and threshold and answers in descending order of score, holding two
  hits of equal score with ids 2 and 1 in this order, has them returned in this order.
\<close>

theorem search_vectors_tie_counterexample:
  "honours_request (scoring_client [hit 2 (9 / 10) [], hit 1 (9 / 10) []])
   \<and> fst (search_vectors (scoring_client [hit 2 (9 / 10) [], hit 1 (9 / 10) []])
        ''cyanview_docs'' [1 / 10] None None 5 (Some (7 / 10)) ())
      = Inr [\<lparr>res_id = 2, res_score = 9 / 10, res_payload = Map.empty\<rparr>,
             \<lparr>res_id = 1, res_score = 9 / 10, res_payload = Map.empty\<rparr>]"
proof -
  have "honours_request (scoring_client [hit 2 (9 / 10) [], hit 1 (9 / 10) []])"
    by (rule scoring_client_honours) (simp add: hit_def)
  moreover have "fst (search_vectors (scoring_client [hit 2 (9 / 10) [], hit 1 (9 / 10) []])
        ''cyanview_docs'' [1 / 10] None None 5 (Some (7 / 10)) ())
      = Inr [\<lparr>res_id = 2, res_score = 9 / 10, res_payload = Map.empty\<rparr>,
             \<lparr>res_id = 1, res_score = 9 / 10, res_payload = Map.empty\<rparr>]"
    by (simp add: search_vectors_def and_then_def scoring_client_def Let_def hit_def
        format_result_def build_search_params_def)
  ultimately show ?thesis by simp
qed

text \<open>
  C6 (as amended).  \<open>create_collection\<close> does not look at the dimension.  When the
  collection exists and \<open>recreate\<close> is false it returns without error, whatever the
  dimension, and leaves the store as it was.  Otherwise, from the state \<open>s0\<close> that is the
  one after listing when the collection is absent, and the one after a successful
  deletion when it exists and \<open>recreate\<close> is true, it asks the client to create the
  collection with the dimension as given and cosine distance, then the index on
  \<open>product\<close>, then the index on \<open>type\<close>; the error of the first of these that fails, or
  of a failed deletion, is the error of the call, and no other error arises.
\<close>

theorem create_collection_no_dimension_check:
  assumes cols: "get_collections cl st = (Inr names, st1)"
    and name: "name = (case cn of None \<Rightarrow> dflt | Some n \<Rightarrow> if n = [] then dflt else n)"
    and request: "request = \<lparr>vp_size = vector_size, vp_distance = COSINE\<rparr>"
  shows "(name \<in> set names \<and> \<not> recreate \<longrightarrow>
            create_collection cl dflt vector_size cn recreate st = (Inr (), st1))
         \<and> (\<forall>err s0. name \<in> set names \<and> recreate
               \<and> delete_collection cl name st1 = (Inl err, s0) \<longrightarrow>
               create_collection cl dflt vector_size cn recreate st = (Inl err, s0))
         \<and> (\<forall>s0. (name \<notin> set names \<and> s0 = st1)
                  \<or> (name \<in> set names \<and> recreate
                      \<and> delete_collection cl name st1 = (Inr (), s0)) \<longrightarrow>
               (\<forall>err s1. client_create_collection cl name request 0 s0 = (Inl err, s1) \<longrightarrow>
                  create_collection cl dflt vector_size cn recreate st = (Inl err, s1))
               \<and> (\<forall>s1. client_create_collection cl name request 0 s0 = (Inr (), s1) \<longrightarrow>
                    (\<forall>err s2. create_payload_index cl name ''product'' KEYWORD s1 = (Inl err, s2) \<longrightarrow>
                       create_collection cl dflt vector_size cn recreate st = (Inl err, s2))
                    \<and> (\<forall>s2. create_payload_index cl name ''product'' KEYWORD s1 = (Inr (), s2) \<longrightarrow>
                         create_collection cl dflt vector_size cn recreate st
                           = create_payload_index cl name ''type'' KEYWORD s2)))
         \<and> (\<forall>err st'. create_collection cl dflt vector_size cn recreate st = (Inl err, st') \<longrightarrow>
              (\<exists>s. fst (delete_collection cl name s) = Inl err)
              \<or> (\<exists>s. fst (client_create_collection cl name request 0 s) = Inl err)
              \<or> (\<exists>s. fst (create_payload_index cl name ''product'' KEYWORD s) = Inl err)
              \<or> (\<exists>s. fst (create_payload_index cl name ''type'' KEYWORD s) = Inl err))"
proof -
  let ?cc = "create_collection cl dflt vector_size cn recreate st"
  have unfold: "?cc
      = (if name \<in> set names then
           if recreate then and_then (delete_collection cl name)
                              (\<lambda>_. create_steps cl name vector_size) st1
           else (Inr (), st1)
         else create_steps cl name vector_size st1)"
    using cols by (simp add: create_collection_def and_then_def Let_def name name_or_default_def)
  have steps_fail1: "create_steps cl name vector_size s0 = (Inl err, s1)"
    if "client_create_collection cl name request 0 s0 = (Inl err, s1)" for s0 err s1
    using that by (simp add: create_steps_def and_then_def request)
  have steps_fail2: "create_steps cl name vector_size s0 = (Inl err, s2)"
    if "client_create_collection cl name request 0 s0 = (Inr (), s1)"
      "create_payload_index cl name ''product'' KEYWORD s1 = (Inl err, s2)" for s0 s1 err s2
    using that by (simp add: create_steps_def and_then_def request)
  have steps_ok: "create_steps cl name vector_size s0
                    = create_payload_index cl name ''type'' KEYWORD s2"
    if "client_create_collection cl name request 0 s0 = (Inr (), s1)"
      "create_payload_index cl name ''product'' KEYWORD s1 = (Inr (), s2)" for s0 s1 s2
    using that by (simp add: create_steps_def and_then_def request)
  have from_s0: "?cc = create_steps cl name vector_size s0"
    if "(name \<notin> set names \<and> s0 = st1)
        \<or> (name \<in> set names \<and> recreate \<and> delete_collection cl name st1 = (Inr (), s0))" for s0
    using that unfold by (auto simp: and_then_def)
  have 1: "name \<in> set names \<and> \<not> recreate \<longrightarrow> ?cc = (Inr (), st1)"
    using unfold by (cases recreate) simp_all
  have 2: "\<forall>err s0. name \<in> set names \<and> recreate
               \<and> delete_collection cl name st1 = (Inl err, s0) \<longrightarrow> ?cc = (Inl err, s0)"
    using unfold by (cases recreate) (simp_all add: and_then_def)
  have 3: "\<forall>s0. (name \<notin> set names \<and> s0 = st1)
                  \<or> (name \<in> set names \<and> recreate
                      \<and> delete_collection cl name st1 = (Inr (), s0)) \<longrightarrow>
               (\<forall>err s1. client_create_collection cl name request 0 s0 = (Inl err, s1) \<longrightarrow>
                  ?cc = (Inl err, s1))
               \<and> (\<forall>s1. client_create_collection cl name request 0 s0 = (Inr (), s1) \<longrightarrow>
                    (\<forall>err s2. create_payload_index cl name ''product'' KEYWORD s1 = (Inl err, s2) \<longrightarrow>
                       ?cc = (Inl err, s2))
                    \<and> (\<forall>s2. create_payload_index cl name ''product'' KEYWORD s1 = (Inr (), s2) \<longrightarrow>
                         ?cc = create_payload_index cl name ''type'' KEYWORD s2))"
  proof (intro allI impI)
    fix s0
    assume "(name \<notin> set names \<and> s0 = st1)
        \<or> (name \<in> set names \<and> recreate \<and> delete_collection cl name st1 = (Inr (), s0))"
    from from_s0 [OF this] steps_fail1 [of s0] steps_fail2 [of s0] steps_ok [of s0]
    show "(\<forall>err s1. client_create_collection cl name request 0 s0 = (Inl err, s1) \<longrightarrow>
                  ?cc = (Inl err, s1))
               \<and> (\<forall>s1. client_create_collection cl name request 0 s0 = (Inr (), s1) \<longrightarrow>
                    (\<forall>err s2. create_payload_index cl name ''product'' KEYWORD s1 = (Inl err, s2) \<longrightarrow>
                       ?cc = (Inl err, s2))
                    \<and> (\<forall>s2. create_payload_index cl name ''product'' KEYWORD s1 = (Inr (), s2) \<longrightarrow>
                         ?cc = create_payload_index cl name ''type'' KEYWORD s2))"
      by simp
  qed
  have 4: "(\<exists>s. fst (delete_collection cl name s) = Inl err)
              \<or> (\<exists>s. fst (client_create_collection cl name request 0 s) = Inl err)
              \<or> (\<exists>s. fst (create_payload_index cl name ''product'' KEYWORD s) = Inl err)
              \<or> (\<exists>s. fst (create_payload_index cl name ''type'' KEYWORD s) = Inl err)"
    if f: "?cc = (Inl err, st')" for err st'
  proof (cases "name \<in> set names")
    case False
    with f unfold have "create_steps cl name vector_size st1 = (Inl err, st')" by simp
    from create_steps_Inl [OF this] show ?thesis unfolding request by blast
  next
    case True
    with f unfold have r: recreate by (auto split: if_splits)
    with True f unfold have "and_then (delete_collection cl name)
                              (\<lambda>_. create_steps cl name vector_size) st1 = (Inl err, st')" by simp
    from and_then_Inl [OF this] show ?thesis
    proof
      assume "\<exists>s. fst (delete_collection cl name s) = Inl err"
      then show ?thesis by blast
    next
      assume "\<exists>x s. fst (create_steps cl name vector_size s) = Inl err"
      then obtain s s' where "create_steps cl name vector_size s = (Inl err, s')"
        by (metis prod.collapse)
      from create_steps_Inl [OF this] show ?thesis unfolding request by blast
    qed
  qed
  from 1 2 3 4 show ?thesis by blast
qed

theorem create_collection_no_dimension_check_witness:
  "create_collection (list_client (Inr [])) ''cyanview_docs'' (- 5) None False
     [(''cyanview_docs'', 1024)]
   = (Inr (), [(''cyanview_docs'', 1024)])
   \<and> create_collection (list_client (Inr [])) ''cyanview_docs'' 0 None False []
   = (Inr (), [(''cyanview_docs'', 0)])
   \<and> create_collection (list_client (Inr [])) ''cyanview_docs'' (- 5) None True
     [(''cyanview_docs'', 1024)]
   = (Inr (), [(''cyanview_docs'', - 5)])"
proof -
  let ?cl = "list_client (Inr [])"
  have n: "''cyanview_docs''
             = (case None of None \<Rightarrow> ''cyanview_docs'' | Some n \<Rightarrow> if n = [] then ''cyanview_docs'' else n)"
    by simp
  have g1: "get_collections ?cl [(''cyanview_docs'', 1024)]
              = (Inr [''cyanview_docs''], [(''cyanview_docs'', 1024)])"
    by (simp add: list_client_def)
  have g0: "get_collections ?cl [] = (Inr [], [])"
    by (simp add: list_client_def)
  have del: "delete_collection ?cl ''cyanview_docs'' [(''cyanview_docs'', 1024)] = (Inr (), [])"
    by (simp add: list_client_def)
  have mk: "client_create_collection ?cl ''cyanview_docs'' \<lparr>vp_size = d, vp_distance = COSINE\<rparr> 0 []
              = (Inr (), [(''cyanview_docs'', d)])" for d
    by (simp add: list_client_def)
  have ix: "create_payload_index ?cl ''cyanview_docs'' field KEYWORD s = (Inr (), s)" for field s
    by (simp add: list_client_def)
  have a: "create_collection ?cl ''cyanview_docs'' (- 5) None False [(''cyanview_docs'', 1024)]
             = (Inr (), [(''cyanview_docs'', 1024)])"
    using create_collection_no_dimension_check [OF g1 n refl, of False "- 5"] by simp
  have b: "create_collection ?cl ''cyanview_docs'' 0 None False []
             = (Inr (), [(''cyanview_docs'', 0)])"
    using create_collection_no_dimension_check [OF g0 n refl, of False 0] mk [of 0] ix
    by simp
  have c: "create_collection ?cl ''cyanview_docs'' (- 5) None True [(''cyanview_docs'', 1024)]
             = (Inr (), [(''cyanview_docs'', - 5)])"
    using create_collection_no_dimension_check [OF g1 n refl, of True "- 5"] del mk [of "- 5"] ix
    by simp
  from a b c show ?thesis by simp
qed

text \<open>
  C6 as stated fails: for dimension 0 and an existing collection, with \<open>recreate\<close>
  false, the call returns normally.
\<close>

theorem create_collection_counterexample:
  "create_collection (list_client (Inr [])) ''cyanview_docs'' 0 None False
     [(''cyanview_docs'', 1024)]
   = (Inr (), [(''cyanview_docs'', 1024)])"
  by (simp add: create_collection_def and_then_def list_client_def name_or_default_def Let_def)

text \<open>
  C4.  When the search step of a query gives no retrieved document, \<open>rag_query\<close> returns
  (it does not raise) the bundle with no sources, the empty context and the canned answer,
  which is not empty.  The state is the one the search step left, and the outcome is the
  same whatever the chain run is: no answer is generated.
\<close>

theorem rag_query_no_results:
  assumes "query_qdrant e query_text top_k fp th st = (Inr [], st')"
  shows "rag_query e query_text top_k fp th is_technical st
           = (Inr \<lparr>b_query = query_text, b_context = [], b_sources = [],
                   b_answer = Some no_information\<rparr>, st')
         \<and> no_information \<noteq> []
         \<and> rag_query (e\<lparr>llm_run := f\<rparr>) query_text top_k fp th is_technical st
             = rag_query e query_text top_k fp th is_technical st"
  using assms
  by (simp add: rag_query_def and_then_def respond_def query_qdrant_llm_irrelevant
      no_information_def)

theorem rag_query_no_results_witness:
  "rag_query (stub_env ''sk-key'' (Inr []) (Inr ''generated'')) ''What is the RCP?'' 5 None
     (Some (7 / 10)) False 0
   = (Inr \<lparr>b_query = ''What is the RCP?'', b_context = [], b_sources = [],
           b_answer = Some no_information\<rparr>, 0)"
proof -
  have h: "query_qdrant (stub_env ''sk-key'' (Inr []) (Inr ''generated'')) ''What is the RCP?'' 5
             None (Some (7 / 10)) 0 = (Inr [], 0)"
    by (simp add: query_qdrant_def search_vectors_def and_then_def stub_env_def
        counting_client_def Let_def)
  from rag_query_no_results [OF h] show ?thesis by simp
qed

text \<open>
  C5 (as amended).  When the embedding succeeds and the search of the backend raises, the
  exception passes unchanged through \<open>search_vectors\<close>, \<open>query_qdrant\<close> and \<open>rag_query\<close>
  to the caller; no bundle is returned.
\<close>

theorem rag_query_search_failure:
  assumes "embed_query e query_text st = (Inr qv, st1)"
    and "search (client e) (build_search_params (COLLECTION_NAME (config e)) qv fp top_k th) st1
           = (Inl err, st2)"
  shows "query_qdrant e query_text top_k fp th st = (Inl err, st2)
         \<and> rag_query e query_text top_k fp th is_technical st = (Inl err, st2)"
  using query_qdrant_result [OF assms]
  by (simp add: rag_query_def and_then_def)

theorem rag_query_search_failure_witness:
  "rag_query (stub_env ''sk-key'' (Inl (Raised ''ResponseHandlingException'')) (Inr ''generated''))
     ''What is the RCP?'' 5 None (Some (7 / 10)) False 0
   = (Inl (Raised ''ResponseHandlingException''), 0)"
proof -
  let ?e = "stub_env ''sk-key'' (Inl (Raised ''ResponseHandlingException'')) (Inr ''generated'')"
  have h1: "embed_query ?e ''What is the RCP?'' 0 = (Inr [1 / 10, 2 / 10, 3 / 10], 0)"
    by (simp add: stub_env_def)
  have h2: "search (client ?e)
              (build_search_params (COLLECTION_NAME (config ?e)) [1 / 10, 2 / 10, 3 / 10] None 5
                 (Some (7 / 10))) 0
            = (Inl (Raised ''ResponseHandlingException''), 0)"
    by (simp add: stub_env_def counting_client_def)
  from rag_query_search_failure [OF h1 h2] show ?thesis by simp
qed

text \<open>
  C5 as stated fails: with a backend whose search raises, \<open>rag_query\<close> returns no bundle.
\<close>

theorem rag_query_search_failure_counterexample:
  "\<not> (\<exists>b st'. rag_query
          (stub_env ''sk-key'' (Inl (Raised ''ResponseHandlingException'')) (Inr ''generated''))
          ''What is the RCP?'' 5 None (Some (7 / 10)) False 0 = (Inr b, st'))"
  by (simp add: rag_query_def query_qdrant_def search_vectors_def and_then_def stub_env_def
      counting_client_def Let_def)

lemma lower_OpenAI:
  "lower_char CHR ''O'' = CHR ''o''" "lower_char CHR ''p'' = CHR ''p''"
  "lower_char CHR ''e'' = CHR ''e''" "lower_char CHR ''n'' = CHR ''n''"
  "lower_char CHR ''A'' = CHR ''a''" "lower_char CHR ''I'' = CHR ''i''"
  by code_simp+

lemma two_decimals_95: "two_decimals (19 / 20) = ''0.95''"
proof -
  have "str_of_nat 0 = ''0''" "char_of (48 + (95::nat) mod 100 div 10) = CHR ''9''"
    "char_of (48 + (95::nat) mod 10) = CHR ''5''" "(95::nat) div 100 = 0"
    by code_simp+
  then show ?thesis by (simp add: two_decimals_def)
qed

lemma get_llm_chain_cases:
  assumes chain: "get_llm_chain e is_technical st1 = (c, st2)"
    and prompt: "prompt = (if is_technical then TECHNICAL_RAG_PROMPT else RAG_PROMPT)"
    and key: "key = OPENAI_API_KEY (config e)"
  shows "map lower_char (LLM_PROVIDER (config e)) \<noteq> ''openai'' \<or> key = [] \<longrightarrow>
           c = Inr None \<and> st2 = st1"
    and "map lower_char (LLM_PROVIDER (config e)) = ''openai'' \<and> key \<noteq> [] \<longrightarrow>
           (\<forall>err s1. new_llm e key st1 = (Inl err, s1) \<longrightarrow> c = Inl err \<and> st2 = s1)
           \<and> (\<forall>s1. new_llm e key st1 = (Inr (), s1) \<longrightarrow>
                (\<forall>err s2. new_prompt e prompt s1 = (Inl err, s2) \<longrightarrow> c = Inl err \<and> st2 = s2)
                \<and> (\<forall>s2. new_prompt e prompt s1 = (Inr (), s2) \<longrightarrow>
                     (\<forall>err s3. new_chain e prompt s2 = (Inl err, s3) \<longrightarrow>
                        c = Inl err \<and> st2 = s3)
                     \<and> (\<forall>s3. new_chain e prompt s2 = (Inr (), s3) \<longrightarrow>
                          c = Inr (Some prompt) \<and> st2 = s3)))"
  using chain unfolding prompt key
  by (auto simp: get_llm_chain_def and_then_def Let_def split: if_splits)

text \<open>
  C7 (as amended).  For a query with at least one retrieved document whose context is
  formatted without error, what \<open>rag_query\<close> returns is decided by \<^verbatim>\<open>get_llm_chain\<close> and
  the run of the chain.  With no chain configured the bundle is returned without an
  answer.  With a chain constructed, the bundle is returned with the generated answer,
  or, when the run raises an \<^verbatim>\<open>Exception\<close>, with the error text as answer.  An
  exception raised while the chain is constructed, and an exception of the run that is
  not an \<^verbatim>\<open>Exception\<close>, reach the caller.  In every bundle returned the context and the
  sources are those of the retrieved documents.  No chain is configured exactly when
  the provider, in lower case, is not \<open>openai\<close> or the API key is empty; otherwise the
  model, the prompt and the chain are constructed in this order, and the first exception
  among them is that of \<^verbatim>\<open>get_llm_chain\<close>.
\<close>

theorem rag_query_answer_generation:
  assumes found: "query_qdrant e query_text top_k fp th st = (Inr rs, st1)"
    and nonempty: "rs \<noteq> []"
    and ctx: "format_context e rs = Inr ctx"
    and chain: "get_llm_chain e is_technical st1 = (c, st2)"
    and resp: "response = \<lparr>b_query = query_text, b_context = ctx,
                            b_sources = map r_source rs, b_answer = None\<rparr>"
    and prompt: "prompt = (if is_technical then TECHNICAL_RAG_PROMPT else RAG_PROMPT)"
    and key: "key = OPENAI_API_KEY (config e)"
  shows "(c = Inr None \<longrightarrow>
            rag_query e query_text top_k fp th is_technical st = (Inr response, st2))
         \<and> (\<forall>err. c = Inl err \<longrightarrow>
               rag_query e query_text top_k fp th is_technical st = (Inl err, st2))
         \<and> (\<forall>llm_chain name st3.
               c = Inr (Some llm_chain)
               \<and> llm_run e llm_chain ctx query_text st2 = (Inl (Raised name), st3) \<longrightarrow>
               rag_query e query_text top_k fp th is_technical st
                 = (Inr (response\<lparr>b_answer := Some generation_error\<rparr>), st3))
         \<and> (\<forall>llm_chain answer st3.
               c = Inr (Some llm_chain)
               \<and> llm_run e llm_chain ctx query_text st2 = (Inr answer, st3) \<longrightarrow>
               rag_query e query_text top_k fp th is_technical st
                 = (Inr (response\<lparr>b_answer := Some answer\<rparr>), st3))
         \<and> (\<forall>llm_chain name st3.
               c = Inr (Some llm_chain)
               \<and> llm_run e llm_chain ctx query_text st2 = (Inl (RaisedBase name), st3) \<longrightarrow>
               rag_query e query_text top_k fp th is_technical st
                 = (Inl (RaisedBase name), st3))
         \<and> (map lower_char (LLM_PROVIDER (config e)) \<noteq> ''openai'' \<or> key = [] \<longrightarrow>
               c = Inr None \<and> st2 = st1)
         \<and> (map lower_char (LLM_PROVIDER (config e)) = ''openai'' \<and> key \<noteq> [] \<longrightarrow>
               (\<forall>err s1. new_llm e key st1 = (Inl err, s1) \<longrightarrow> c = Inl err \<and> st2 = s1)
               \<and> (\<forall>s1. new_llm e key st1 = (Inr (), s1) \<longrightarrow>
                    (\<forall>err s2. new_prompt e prompt s1 = (Inl err, s2) \<longrightarrow>
                       c = Inl err \<and> st2 = s2)
                    \<and> (\<forall>s2. new_prompt e prompt s1 = (Inr (), s2) \<longrightarrow>
                         (\<forall>err s3. new_chain e prompt s2 = (Inl err, s3) \<longrightarrow>
                            c = Inl err \<and> st2 = s3)
                         \<and> (\<forall>s3. new_chain e prompt s2 = (Inr (), s3) \<longrightarrow>
                              c = Inr (Some prompt) \<and> st2 = s3))))"
proof -
  have rq: "rag_query e query_text top_k fp th is_technical st
              = respond e query_text is_technical rs st1"
    using found by (simp add: rag_query_def and_then_def)
  have r: "respond e query_text is_technical rs st1
             = (case c of
                  Inl err \<Rightarrow> (Inl err, st2)
                | Inr None \<Rightarrow> (Inr response, st2)
                | Inr (Some llm_chain) \<Rightarrow>
                    (case llm_run e llm_chain ctx query_text st2 of
                       (Inr answer, st3) \<Rightarrow> (Inr (response\<lparr>b_answer := Some answer\<rparr>), st3)
                     | (Inl (Raised name), st3) \<Rightarrow>
                         (Inr (response\<lparr>b_answer := Some generation_error\<rparr>), st3)
                     | (Inl (RaisedBase name), st3) \<Rightarrow> (Inl (RaisedBase name), st3)))"
    using nonempty ctx chain unfolding resp
    by (simp add: respond_def Let_def split: sum.splits option.splits)
  have answers:
    "(c = Inr None \<longrightarrow>
            rag_query e query_text top_k fp th is_technical st = (Inr response, st2))
         \<and> (\<forall>err. c = Inl err \<longrightarrow>
               rag_query e query_text top_k fp th is_technical st = (Inl err, st2))
         \<and> (\<forall>llm_chain name st3.
               c = Inr (Some llm_chain)
               \<and> llm_run e llm_chain ctx query_text st2 = (Inl (Raised name), st3) \<longrightarrow>
               rag_query e query_text top_k fp th is_technical st
                 = (Inr (response\<lparr>b_answer := Some generation_error\<rparr>), st3))
         \<and> (\<forall>llm_chain answer st3.
               c = Inr (Some llm_chain)
               \<and> llm_run e llm_chain ctx query_text st2 = (Inr answer, st3) \<longrightarrow>
               rag_query e query_text top_k fp th is_technical st
                 = (Inr (response\<lparr>b_answer := Some answer\<rparr>), st3))
         \<and> (\<forall>llm_chain name st3.
               c = Inr (Some llm_chain)
               \<and> llm_run e llm_chain ctx query_text st2 = (Inl (RaisedBase name), st3) \<longrightarrow>
               rag_query e query_text top_k fp th is_technical st
                 = (Inl (RaisedBase name), st3))"
    unfolding rq r by (simp split: sum.splits option.splits)
  from answers get_llm_chain_cases [OF chain prompt key] show ?thesis
    by (intro conjI) blast+
qed

theorem rag_query_answer_generation_witness:
  "rag_query
     (stub_env ''sk-key''
        (Inr [hit 1 (95 / 100) [(''text'', PStr ''The RCP is a panel.''),
                                (''source'', PStr ''docs/doc1.txt'')]])
        (Inl (Raised ''RateLimitError'')))
     ''What is the RCP?'' 5 None (Some (7 / 10)) False 0
   = (Inr \<lparr>b_query = ''What is the RCP?'',
           b_context = ''[Source: doc1.txt, Score: 0.95]'' @ [CHR 0x0A]
                         @ ''The RCP is a panel.'' @ [CHR 0x0A, CHR 0x0A],
           b_sources = [PStr ''docs/doc1.txt''],
           b_answer = Some generation_error\<rparr>, 1)"
proof -
  let ?e = "stub_env ''sk-key''
        (Inr [hit 1 (95 / 100) [(''text'', PStr ''The RCP is a panel.''),
                                (''source'', PStr ''docs/doc1.txt'')]])
        (Inl (Raised ''RateLimitError''))"
  let ?r = "\<lparr>r_text = PStr ''The RCP is a panel.'', r_source = PStr ''docs/doc1.txt'',
            r_product = PStr [], r_score = 95 / 100, r_id = 1\<rparr>"
  let ?ctx = "''[Source: doc1.txt, Score: 0.95]'' @ [CHR 0x0A]
                @ ''The RCP is a panel.'' @ [CHR 0x0A, CHR 0x0A]"
  have h1: "query_qdrant ?e ''What is the RCP?'' 5 None (Some (7 / 10)) 0 = (Inr [?r], 0)"
    by (simp add: query_qdrant_def search_vectors_def and_then_def stub_env_def
        counting_client_def Let_def hit_def format_result_def get_or_def)
  have h2: "[?r] \<noteq> []" by simp
  have h3: "format_context ?e [?r] = Inr ?ctx"
    by (simp add: format_context_def context_part_def source_label_def last_component_def
        stub_env_def two_decimals_95)
  have h4: "get_llm_chain ?e False 0 = (Inr (Some RAG_PROMPT), 0)"
    by (simp add: get_llm_chain_def stub_env_def lower_OpenAI and_then_def)
  have h5: "llm_run ?e RAG_PROMPT ?ctx ''What is the RCP?'' 0 = (Inl (Raised ''RateLimitError''), 1)"
    by (simp add: stub_env_def)
  from rag_query_answer_generation [OF h1 h2 h3 h4 refl refl refl] h5 show ?thesis
    by simp
qed

text \<open>
  C7 as stated fails when the collaborator is unavailable: with an empty API key no chain
  is configured, and the bundle is returned without an answer, not with an error text.
\<close>

theorem rag_query_answer_generation_counterexample:
  "rag_query
     (stub_env []
        (Inr [hit 1 (95 / 100) [(''text'', PStr ''The RCP is a panel.''),
                                (''source'', PStr ''docs/doc1.txt'')]])
        (Inr ''generated''))
     ''What is the RCP?'' 5 None (Some (7 / 10)) False 0
   = (Inr \<lparr>b_query = ''What is the RCP?'',
           b_context = ''[Source: doc1.txt, Score: 0.95]'' @ [CHR 0x0A]
                         @ ''The RCP is a panel.'' @ [CHR 0x0A, CHR 0x0A],
           b_sources = [PStr ''docs/doc1.txt''],
           b_answer = None\<rparr>, 0)"
  by (simp add: rag_query_def query_qdrant_def search_vectors_def and_then_def stub_env_def
      counting_client_def Let_def hit_def format_result_def respond_def format_context_def
      context_part_def source_label_def last_component_def get_or_def get_llm_chain_def
      lower_OpenAI two_decimals_95)

text \<open>
  C10.  A hit whose payload has no \<open>text\<close> key is dropped by \<open>query_qdrant\<close>: the
  retrieved documents are those of the hits that have the key, one for one and in order,
  and \<open>rag_query\<close> builds its answer from these alone.  When no hit has the key,
  \<open>rag_query\<close> returns the bundle with no sources, the empty context and the canned
  answer.
\<close>

theorem hits_without_text_dropped:
  assumes emb: "embed_query e query_text st = (Inr qv, st1)"
    and srch: "search (client e) (build_search_params (COLLECTION_NAME (config e)) qv fp top_k th) st1
           = (Inr hits, st2)"
    and kept: "kept = map format_result (filter (\<lambda>h. sp_payload h ''text'' \<noteq> None) hits)"
  shows "query_qdrant e query_text top_k fp th st = (Inr (contexts_of kept), st2)
         \<and> map r_id (contexts_of kept) = map res_id kept
         \<and> map r_source (contexts_of kept)
             = map (\<lambda>r. get_or (res_payload r) ''source'' (PStr [])) kept
         \<and> rag_query e query_text top_k fp th is_technical st
             = respond e query_text is_technical (contexts_of kept) st2
         \<and> ((\<forall>h \<in> set hits. sp_payload h ''text'' = None) \<longrightarrow>
              rag_query e query_text top_k fp th is_technical st
                = (Inr \<lparr>b_query = query_text, b_context = [], b_sources = [],
                        b_answer = Some no_information\<rparr>, st2))"
proof -
  let ?has = "\<lambda>r. res_payload r ''text'' \<noteq> None"
  have k: "kept = filter ?has (map format_result hits)"
    by (simp only: kept filter_format_result)
  have kk: "filter ?has kept = kept" by (simp add: k)
  have q: "query_qdrant e query_text top_k fp th st = (Inr (contexts_of kept), st2)"
    using query_qdrant_result [OF emb srch] contexts_of_filter [of "map format_result hits"]
    by (simp add: k)
  have ids: "map r_id (contexts_of kept) = map res_id kept"
    using contexts_of_ids [of kept] by (simp only: kk)
  have srcs: "map r_source (contexts_of kept)
                = map (\<lambda>r. get_or (res_payload r) ''source'' (PStr [])) kept"
    using contexts_of_sources [of kept] by (simp only: kk)
  have rq: "rag_query e query_text top_k fp th is_technical st
              = respond e query_text is_technical (contexts_of kept) st2"
    using q by (simp add: rag_query_def and_then_def)
  have none: "rag_query e query_text top_k fp th is_technical st
                = (Inr \<lparr>b_query = query_text, b_context = [], b_sources = [],
                        b_answer = Some no_information\<rparr>, st2)"
    if "\<forall>h \<in> set hits. sp_payload h ''text'' = None"
  proof -
    from that have "filter (\<lambda>h. sp_payload h ''text'' \<noteq> None) hits = []"
      by (simp add: filter_empty_conv)
    then have "kept = []" by (simp add: kept)
    then show ?thesis by (simp add: rq respond_def)
  qed
  from q ids srcs rq none show ?thesis by blast
qed

theorem hits_without_text_dropped_witness:
  "rag_query
     (stub_env ''sk-key''
        (Inr [hit 1 (95 / 100) [(''source'', PStr ''docs/doc1.txt'')],
              hit 2 (85 / 100) [(''product'', PStr ''RIO'')]])
        (Inr ''generated''))
     ''What is the RCP?'' 5 None (Some (7 / 10)) False 0
   = (Inr \<lparr>b_query = ''What is the RCP?'', b_context = [], b_sources = [],
           b_answer = Some no_information\<rparr>, 0)"
proof -
  let ?hits = "[hit 1 (95 / 100) [(''source'', PStr ''docs/doc1.txt'')],
              hit 2 (85 / 100) [(''product'', PStr ''RIO'')]]"
  let ?e = "stub_env ''sk-key'' (Inr ?hits) (Inr ''generated'')"
  have h1: "embed_query ?e ''What is the RCP?'' 0 = (Inr [1 / 10, 2 / 10, 3 / 10], 0)"
    by (simp add: stub_env_def)
  have h2: "search (client ?e)
              (build_search_params (COLLECTION_NAME (config ?e)) [1 / 10, 2 / 10, 3 / 10] None 5
                 (Some (7 / 10))) 0
            = (Inr ?hits, 0)"
    by (simp add: stub_env_def counting_client_def)
  have h3: "[] = map format_result (filter (\<lambda>h. sp_payload h ''text'' \<noteq> None) ?hits)"
    by (simp add: hit_def)
  have h4: "\<forall>h \<in> set ?hits. sp_payload h ''text'' = None"
    by (simp add: hit_def)
  from hits_without_text_dropped [OF h1 h2 h3, of False] h4 show ?thesis
    by blast
qed

section \<open>Metadata extraction\<close>

lemma occurs_at_bound:
  assumes "occurs_at s tm i" "tm \<noteq> []"
  shows "i + length tm \<le> length s"
proof -
  from assms(1) have "length (take (length tm) (drop i s)) = length tm"
    by (simp add: occurs_at_def)
  then have "min (length s - i) (length tm) = length tm" by simp
  moreover from assms(2) have "0 < length tm" by simp
  ultimately show ?thesis by linarith
qed

lemma occurs_at_nth:
  assumes "occurs_at s tm i" "k < length tm"
  shows "s ! (i + k) = tm ! k"
proof -
  from assms(2) have ne: "tm \<noteq> []" by auto
  from assms(1) have "tm ! k = take (length tm) (drop i s) ! k"
    by (simp add: occurs_at_def)
  also have "\<dots> = s ! (i + k)"
    using assms occurs_at_bound [OF assms(1) ne] by simp
  finally show ?thesis by simp
qed

lemma match_term_whole_word:
  assumes "word_ended tm"
  shows "match_term tm s i = whole_word_at tm s i"
proof (cases "occurs_at s tm i")
  case False
  then show ?thesis by (simp add: match_term_def whole_word_at_def)
next
  case True
  from assms have ne: "tm \<noteq> []" and h: "is_word_char (tm ! 0)"
    and l: "is_word_char (tm ! (length tm - 1))"
    by (auto simp: word_ended_def hd_conv_nth last_conv_nth)
  from ne have len: "1 \<le> length tm" by (cases tm) simp_all
  from occurs_at_bound [OF True ne] len have b: "i < length s" "i + length tm - 1 < length s"
    by linarith+
  from occurs_at_nth [OF True, of 0] ne len h b have first: "word_at s i"
    by (simp add: word_at_def)
  have "i + (length tm - 1) = i + length tm - 1" using len by simp
  with occurs_at_nth [OF True, of "length tm - 1"] ne len l b
  have lastw: "word_at s (i + length tm - 1)"
    by (simp add: word_at_def)
  from ne have pos: "0 < i + length tm" by simp
  show ?thesis
    using True first lastw pos
    by (auto simp: match_term_def whole_word_at_def word_boundary_def)
qed

lemma borderless_no_overlap:
  assumes bl: "borderless tm" and oi: "occurs_at s tm i" and oj: "occurs_at s tm j"
    and lt: "i < j" "j < i + length tm"
  shows False
proof -
  define k where "k = j - i"
  define n where "n = length tm"
  from lt have k: "1 \<le> k" "k < n" and j: "j = i + k" by (simp_all add: k_def n_def)
  have "drop k tm = drop k (take n (drop i s))"
    using oi by (simp add: occurs_at_def n_def)
  also have "\<dots> = take (n - k) (drop j s)"
    by (simp add: drop_take j add.commute)
  also have "\<dots> = take (n - k) (take n (drop j s))"
    by (simp add: min_def)
  also have "\<dots> = take (n - k) tm"
    using oj by (simp add: occurs_at_def n_def)
  finally have "drop k tm = take (n - k) tm" .
  moreover from bl have "\<forall>k \<in> set [1 ..< n]. drop k tm \<noteq> take (n - k) tm"
    by (simp add: borderless_def list_all_iff n_def)
  with k have "drop k tm \<noteq> take (n - k) tm" by simp
  ultimately show False by simp
qed

lemma upt_head: "pos \<le> n \<Longrightarrow> [pos ..< Suc n] = pos # [Suc pos ..< Suc n]"
  by (rule upt_conv_Cons) simp

lemma upt_split3:
  assumes "pos + m \<le> n" "1 \<le> m"
  shows "[pos ..< Suc n] = pos # [Suc pos ..< pos + m] @ [pos + m ..< Suc n]"
proof -
  from assms have "[pos ..< Suc n] = pos # [Suc pos ..< Suc n]"
    by (intro upt_head) simp
  moreover have "[Suc pos ..< Suc n] = [Suc pos ..< pos + m] @ [pos + m ..< Suc n]"
  proof -
    from assms obtain d where d: "Suc n = (pos + m) + d"
      by (metis le_SucI le_iff_add)
    from assms have "Suc pos \<le> pos + m" by simp
    from upt_add_eq_append [OF this, of d] d show ?thesis by simp
  qed
  ultimately show ?thesis by simp
qed

lemma findall_filter:
  assumes bl: "borderless tm" and ne: "tm \<noteq> []"
  shows "findall tm s pos = filter (match_term tm s) [pos ..< Suc (length s)]"
  using assms
proof (induction tm s pos rule: findall.induct)
  case (1 tm s pos)
  let ?n = "length s" and ?m = "length tm"
  show ?case
  proof (cases "?n < pos")
    case True
    then show ?thesis by (simp add: findall.simps [of tm s pos])
  next
    case out: False
    show ?thesis
    proof (cases "match_term tm s pos")
      case no: False
      have "findall tm s pos = findall tm s (Suc pos)"
        using out no by (subst findall.simps) (simp only: if_False)
      also have "\<dots> = filter (match_term tm s) [Suc pos ..< Suc ?n]"
        using "1.IH"(2) [OF out no "1.prems"] .
      also have "\<dots> = filter (match_term tm s) [pos ..< Suc ?n]"
      proof -
        from out have "[pos ..< Suc ?n] = pos # [Suc pos ..< Suc ?n]"
          by (intro upt_head) simp
        with no show ?thesis by (simp only: filter.simps if_False)
      qed
      finally show ?thesis .
    next
      case yes: True
      from "1.prems" have m: "1 \<le> ?m" by (cases tm) simp_all
      then have mx: "max 1 ?m = ?m" by simp
      have ih: "findall tm s (pos + ?m) = filter (match_term tm s) [pos + ?m ..< Suc ?n]"
        using "1.IH"(1) [OF out yes "1.prems"] by (simp only: mx)
      have step: "findall tm s pos = pos # findall tm s (pos + ?m)"
        using out yes by (subst findall.simps) (simp only: mx if_True if_False)
      from yes have occ: "occurs_at s tm pos" by (simp add: match_term_def)
      from occurs_at_bound [OF occ "1.prems"(2)] have bound: "pos + ?m \<le> ?n" .
      have none: "filter (match_term tm s) [Suc pos ..< pos + ?m] = []"
      proof -
        have "\<not> match_term tm s j" if "j \<in> set [Suc pos ..< pos + ?m]" for j
        proof
          assume "match_term tm s j"
          then have "occurs_at s tm j" by (simp add: match_term_def)
          from borderless_no_overlap [OF "1.prems"(1) occ this] that show False by simp
        qed
        then show ?thesis by (simp add: filter_empty_conv)
      qed
      have split: "[pos ..< Suc ?n] = pos # [Suc pos ..< pos + ?m] @ [pos + ?m ..< Suc ?n]"
        using bound m by (rule upt_split3)
      from step ih
      have "findall tm s pos = pos # filter (match_term tm s) [pos + ?m ..< Suc ?n]"
        by (simp only:)
      also have "\<dots> = filter (match_term tm s) [pos ..< Suc ?n]"
        using yes none by (simp only: split filter.simps filter_append if_True append_Nil)
      finally show ?thesis .
    qed
  qed
qed

lemma good_products: "list_all (\<lambda>t. borderless t \<and> word_ended t) CYANVIEW_PRODUCTS"
  by code_simp

lemma good_topics: "list_all (\<lambda>t. borderless t \<and> word_ended t) CYANVIEW_TOPICS"
  by code_simp

lemma distinct_products: "distinct CYANVIEW_PRODUCTS"
  by code_simp

lemma distinct_topics: "distinct CYANVIEW_TOPICS"
  by code_simp


lemma length_filter_card:
  assumes "\<And>i. P i \<Longrightarrow> i \<le> n"
  shows "length (filter P [0 ..< Suc n]) = card {i. P i}"
proof -
  have "{i. P i} = set (filter P [0 ..< Suc n])"
    using assms by (auto simp del: upt_Suc simp: less_Suc_eq_le)
  moreover have "distinct (filter P [0 ..< Suc n])" by simp
  ultimately show ?thesis by (simp only: distinct_card)
qed

lemma count_whole_words:
  assumes "borderless tm" "word_ended tm"
  shows "length (findall tm s 0) = card {i. whole_word_at tm s i}"
proof -
  from assms(2) have ne: "tm \<noteq> []" by (simp add: word_ended_def)
  have eq: "match_term tm s = whole_word_at tm s"
    using match_term_whole_word [OF assms(2)] by (intro ext)
  have "findall tm s 0 = filter (whole_word_at tm s) [0 ..< Suc (length s)]"
    using findall_filter [OF assms(1) ne, of s 0] by (simp only: eq)
  moreover have "i \<le> length s" if "whole_word_at tm s i" for i
    using occurs_at_bound [of s tm i] that ne by (simp add: whole_word_at_def)
  ultimately show ?thesis
    by (simp only: length_filter_card)
qed

lemma found_terms_eq:
  "found_terms terms content
     = map (\<lambda>t. (t, length (findall t content 0)))
         (filter (\<lambda>t. 0 < length (findall t content 0)) terms)"
  by (induction terms) (simp_all add: Let_def)

lemma insort_key_map:
  "insort_key f (g x) (map g ys) = map g (insort_key (\<lambda>a. f (g a)) x ys)"
  by (induction ys) simp_all

lemma sort_key_map: "sort_key f (map g xs) = map g (sort_key (\<lambda>a. f (g a)) xs)"
  by (induction xs) (simp_all add: insort_key_map)

lemma sort_reverse_map:
  "sort_reverse f (map g xs) = map g (sort_reverse (\<lambda>a. f (g a)) xs)"
  by (simp add: sort_reverse_def rev_map sort_key_map)

lemma set_sort_reverse: "set (sort_reverse f xs) = set xs"
  by (simp add: sort_reverse_def)

lemma distinct_sort_reverse: "distinct (sort_reverse f xs) = distinct xs"
  by (simp add: sort_reverse_def)

lemma sorted_sort_reverse: "sorted_wrt (\<lambda>a b. f b \<le> f a) (sort_reverse f xs)"
proof -
  have "sorted (map f (sort_key f (rev xs)))" by (rule sorted_sort_key)
  then have "sorted_wrt (\<lambda>a b. f a \<le> f b) (sort_key f (rev xs))"
    by (simp only: sorted_map)
  then show ?thesis
    by (simp add: sort_reverse_def sorted_wrt_rev)
qed

lemma sort_reverse_stable:
  "filter (\<lambda>x. f x = k) (sort_reverse f xs) = filter (\<lambda>x. f x = k) xs"
proof -
  have "filter (\<lambda>x. f x = k) (sort_reverse f xs)
          = rev (filter (\<lambda>x. f x = k) (sort_key f (rev xs)))"
    by (simp add: sort_reverse_def rev_filter)
  also have "\<dots> = rev (filter (\<lambda>x. f x = k) (rev xs))"
    by (simp only: sort_key_stable)
  also have "\<dots> = filter (\<lambda>x. f x = k) xs"
    by (simp add: rev_filter [symmetric])
  finally show ?thesis .
qed

lemma ranked_eq:
  "map fst (sort_reverse snd (found_terms terms content))
     = sort_reverse (\<lambda>t. length (findall t content 0))
         (filter (\<lambda>t. 0 < length (findall t content 0)) terms)"
  by (simp add: found_terms_eq sort_reverse_map comp_def del: length_greater_0_conv)

lemma ranked_terms:
  assumes good: "list_all (\<lambda>t. borderless t \<and> word_ended t) terms"
    and dist: "distinct terms"
    and cnt: "cnt = (\<lambda>t. card {i. whole_word_at t content i})"
    and rs: "rs = map fst (sort_reverse snd (found_terms terms content))"
  shows "\<forall>t \<in> set terms. length (findall t content 0) = cnt t"
    and "distinct rs"
    and "set rs = {t \<in> set terms. 0 < cnt t}"
    and "sorted_wrt (\<lambda>a b. cnt b \<le> cnt a) rs"
    and "filter (\<lambda>t. cnt t = k) rs = filter (\<lambda>t. cnt t = k \<and> 0 < k) terms"
proof -
  let ?c = "\<lambda>t. length (findall t content 0)"
  let ?ts = "filter (\<lambda>t. 0 < ?c t) terms"
  show c: "\<forall>t \<in> set terms. ?c t = cnt t"
    using good count_whole_words by (auto simp: list_all_iff cnt)
  have r: "rs = sort_reverse ?c ?ts" by (simp only: rs ranked_eq)
  show "distinct rs" using dist by (simp add: r distinct_sort_reverse)
  have "set rs = {t \<in> set terms. 0 < ?c t}"
    by (simp only: r set_sort_reverse set_filter)
  also have "\<dots> = {t \<in> set terms. 0 < cnt t}"
    by (rule Collect_cong) (metis c)
  finally show s: "set rs = {t \<in> set terms. 0 < cnt t}" .
  have "sorted_wrt (\<lambda>a b. ?c b \<le> ?c a) rs"
    by (simp only: r sorted_sort_reverse)
  then show "sorted_wrt (\<lambda>a b. cnt b \<le> cnt a) rs"
    by (rule sorted_wrt_mono_rel [rotated]) (use c s in auto)
  have "filter (\<lambda>t. cnt t = k) rs = filter (\<lambda>t. ?c t = k) rs"
    by (rule filter_cong) (use c s in auto)
  also have "\<dots> = filter (\<lambda>t. ?c t = k) ?ts"
    by (simp only: r sort_reverse_stable)
  also have "\<dots> = filter (\<lambda>t. ?c t = k \<and> 0 < ?c t) terms"
    by (simp add: conj_commute del: length_greater_0_conv)
  also have "\<dots> = filter (\<lambda>t. cnt t = k \<and> 0 < k) terms"
    by (rule filter_cong) (use c in auto)
  finally show "filter (\<lambda>t. cnt t = k) rs = filter (\<lambda>t. cnt t = k \<and> 0 < k) terms" .
qed

lemma extract_metadata_products:
  "extract_metadata_from_content content ''product''
     = (if extract_product_references content = [] then None
        else Some (PStr (hd (extract_product_references content))))"
  "extract_metadata_from_content content ''all_products''
     = (if extract_product_references content = [] then None
        else Some (PList (map PStr (extract_product_references content))))"
  by (simp_all add: extract_metadata_from_content_def Let_def)

lemma extract_metadata_topics:
  "extract_metadata_from_content content ''topic''
     = (if extract_topics content = [] then None
        else Some (PStr (hd (extract_topics content))))"
  "extract_metadata_from_content content ''all_topics''
     = (if extract_topics content = [] then None
        else Some (PList (map PStr (extract_topics content))))"
  by (simp_all add: extract_metadata_from_content_def Let_def)

text \<open>
  C8.  With the count of a term being the number of indices at which it occurs in the
  content as a whole word, letter for letter: for every term of the two reference lists
  \<open>findall\<close> finds exactly that many matches; the products returned are the terms of the
  product list with a positive count, each once, in descending order of count, and terms
  of equal count stand in the order of the reference list; likewise the topics; and the
  metadata has \<open>product\<close> (the first of the products) and \<open>all_products\<close> (all of them)
  exactly when there is at least one, and \<open>topic\<close> and \<open>all_topics\<close> likewise.
\<close>

theorem metadata_extraction:
  "let cnt = (\<lambda>t. card {i. whole_word_at t content i});
       products = extract_product_references content;
       topics = extract_topics content;
       m = extract_metadata_from_content content
   in (\<forall>t \<in> set (CYANVIEW_PRODUCTS @ CYANVIEW_TOPICS). length (findall t content 0) = cnt t)
      \<and> distinct products
      \<and> set products = {t \<in> set CYANVIEW_PRODUCTS. 0 < cnt t}
      \<and> sorted_wrt (\<lambda>a b. cnt b \<le> cnt a) products
      \<and> (\<forall>k. filter (\<lambda>t. cnt t = k) products
               = filter (\<lambda>t. cnt t = k \<and> 0 < k) CYANVIEW_PRODUCTS)
      \<and> distinct topics
      \<and> set topics = {t \<in> set CYANVIEW_TOPICS. 0 < cnt t}
      \<and> sorted_wrt (\<lambda>a b. cnt b \<le> cnt a) topics
      \<and> (\<forall>k. filter (\<lambda>t. cnt t = k) topics
               = filter (\<lambda>t. cnt t = k \<and> 0 < k) CYANVIEW_TOPICS)
      \<and> (if products = [] then m ''product'' = None \<and> m ''all_products'' = None
          else m ''product'' = Some (PStr (hd products))
               \<and> m ''all_products'' = Some (PList (map PStr products)))
      \<and> (if topics = [] then m ''topic'' = None \<and> m ''all_topics'' = None
          else m ''topic'' = Some (PStr (hd topics))
               \<and> m ''all_topics'' = Some (PList (map PStr topics)))"
proof -
  define cnt where "cnt = (\<lambda>t. card {i. whole_word_at t content i})"
  note p = ranked_terms [OF good_products distinct_products cnt_def
      extract_product_references_def [of content]]
  note t = ranked_terms [OF good_topics distinct_topics cnt_def
      extract_topics_def [of content]]
  have 1: "\<forall>t \<in> set (CYANVIEW_PRODUCTS @ CYANVIEW_TOPICS). length (findall t content 0) = cnt t"
    using p(1) t(1) by auto
  have 2: "\<forall>k. filter (\<lambda>t. cnt t = k) (extract_product_references content)
               = filter (\<lambda>t. cnt t = k \<and> 0 < k) CYANVIEW_PRODUCTS"
    using p(5) by blast
  have 3: "\<forall>k. filter (\<lambda>t. cnt t = k) (extract_topics content)
               = filter (\<lambda>t. cnt t = k \<and> 0 < k) CYANVIEW_TOPICS"
    using t(5) by blast
  have 4: "if extract_product_references content = []
           then extract_metadata_from_content content ''product'' = None
                \<and> extract_metadata_from_content content ''all_products'' = None
           else extract_metadata_from_content content ''product''
                  = Some (PStr (hd (extract_product_references content)))
                \<and> extract_metadata_from_content content ''all_products''
                  = Some (PList (map PStr (extract_product_references content)))"
    by (simp add: extract_metadata_products)
  have 5: "if extract_topics content = []
           then extract_metadata_from_content content ''topic'' = None
                \<and> extract_metadata_from_content content ''all_topics'' = None
           else extract_metadata_from_content content ''topic''
                  = Some (PStr (hd (extract_topics content)))
                \<and> extract_metadata_from_content content ''all_topics''
                  = Some (PList (map PStr (extract_topics content)))"
    by (simp add: extract_metadata_topics)
  from 1 p(2) p(3) p(4) 2 t(2) t(3) t(4) 3 4 5 show ?thesis
    unfolding Let_def cnt_def by (intro conjI)
qed

theorem metadata_extraction_witness:
  "extract_metadata_from_content ''RIO, RCP: RCP'' ''product'' = Some (PStr ''RCP'')
   \<and> extract_metadata_from_content ''RIO, RCP: RCP'' ''all_products''
       = Some (PList [PStr ''RCP'', PStr ''RIO''])
   \<and> extract_metadata_from_content ''RIO, RCP: RCP'' ''topic'' = None
   \<and> extract_metadata_from_content ''RIO, RCP: RCP'' ''all_topics'' = None"
proof -
  have p: "extract_product_references ''RIO, RCP: RCP'' = [''RCP'', ''RIO'']" by code_simp
  have t: "extract_topics ''RIO, RCP: RCP'' = []" by code_simp
  from metadata_extraction [of "''RIO, RCP: RCP''"]
  have "(if extract_product_references ''RIO, RCP: RCP'' = []
         then extract_metadata_from_content ''RIO, RCP: RCP'' ''product'' = None
              \<and> extract_metadata_from_content ''RIO, RCP: RCP'' ''all_products'' = None
         else extract_metadata_from_content ''RIO, RCP: RCP'' ''product''
                = Some (PStr (hd (extract_product_references ''RIO, RCP: RCP'')))
              \<and> extract_metadata_from_content ''RIO, RCP: RCP'' ''all_products''
                = Some (PList (map PStr (extract_product_references ''RIO, RCP: RCP''))))
        \<and> (if extract_topics ''RIO, RCP: RCP'' = []
            then extract_metadata_from_content ''RIO, RCP: RCP'' ''topic'' = None
                 \<and> extract_metadata_from_content ''RIO, RCP: RCP'' ''all_topics'' = None
            else extract_metadata_from_content ''RIO, RCP: RCP'' ''topic''
                   = Some (PStr (hd (extract_topics ''RIO, RCP: RCP'')))
                 \<and> extract_metadata_from_content ''RIO, RCP: RCP'' ''all_topics''
                   = Some (PList (map PStr (extract_topics ''RIO, RCP: RCP''))))"
    unfolding Let_def by blast
  then show ?thesis
    by (simp add: p t)
qed

end
